theory Spec2Isabelle
  imports Main
begin

section \<open>The OpenAI agent worker of LlamaIndexTS\<close>

text \<open>
  A shallow embedding of \<^verbatim>\<open>packages/core/src/agent/openai/worker.ts\<close>.
  The worker mutates a task object and two kinds of heap objects (chat memory buffers and
  the array of tool outputs), so the model threads an explicit store through every
  operation. A JavaScript exception is a value of type \<open>error\<close>; an operation that can
  throw returns \<open>error + 'a\<close> together with the store reached when it stopped, because the
  mutations made before a throw stay in place.
\<close>

subsection \<open>Values, errors and messages\<close>

text \<open>
  JSON values. A number is an integer \<open>JNum i\<close> or a decimal fraction \<open>JDec m k\<close>,
  standing for \<open>m / 10 ^ k\<close> with \<open>k > 0\<close> and \<open>m\<close> not a multiple of 10. Numbers are exact:
  the rounding of JavaScript's doubles is not modelled. A string is a list of bytes: the
  bytes of the text as it is written and, for an escape \<^verbatim>\<open>\u\<close>, the bytes that encode its
  UTF-16 code unit in the manner of UTF-8. An object keeps its members as they are
  written.
\<close>

datatype json =
    JNull
  | JBool bool
  | JNum int
  | JDec int nat
  | JStr string
  | JArr "json list"
  | JObj "(string \<times> json) list"

datatype error =
    Error string
  | SyntaxError string
  | TypeError string

subsection \<open>JavaScript built-ins: \<^verbatim>\<open>String\<close> and \<^verbatim>\<open>JSON.parse\<close>\<close>

text \<open>
  \<^verbatim>\<open>String(v)\<close> on a JSON value: a number prints in decimal, a string is itself, an array
  joins its elements with commas (\<^verbatim>\<open>null\<close> elements print as nothing), any other object
  prints as \<^verbatim>\<open>[object Object]\<close>. A decimal fraction prints its digits with the point in
  place, with leading zeros down to six places after the point, and with an exponent
  beyond that, as \<^verbatim>\<open>Number.prototype.toString\<close> does. An integer prints all its digits,
  which is JavaScript's output below \<open>10 ^ 21\<close>.
\<close>

fun digits :: "nat \<Rightarrow> string" where
  "digits n =
     (if n < 10 then [''0123456789'' ! n]
      else digits (n div 10) @ [''0123456789'' ! (n mod 10)])"

declare digits.simps [simp del]

definition String_int :: "int \<Rightarrow> string" where
  "String_int i = (if i < 0 then CHR ''-'' # digits (nat (- i)) else digits (nat i))"

definition exponent_form :: "string \<Rightarrow> int \<Rightarrow> string" where
  "exponent_form ds e =
     (case ds of [] \<Rightarrow> [] | [d] \<Rightarrow> [d] | d # rest \<Rightarrow> d # CHR ''.'' # rest)
       @ CHR ''e'' # (if e < 0 then CHR ''-'' else CHR ''+'') # digits (nat \<bar>e\<bar>)"

definition String_dec :: "int \<Rightarrow> nat \<Rightarrow> string" where
  "String_dec m k =
     (let ds = digits (nat \<bar>m\<bar>);
          sign = (if m < 0 then ''-'' else []);
          len = length ds
      in if k < len then
           (if len - k \<le> 21 then sign @ take (len - k) ds @ CHR ''.'' # drop (len - k) ds
            else sign @ exponent_form ds (int len - int k - 1))
         else if k - len < 6 then sign @ ''0.'' @ replicate (k - len) CHR ''0'' @ ds
         else sign @ exponent_form ds (int len - int k - 1))"

fun join_comma :: "string list \<Rightarrow> string" where
  "join_comma [] = []"
| "join_comma [x] = x"
| "join_comma (x # y # ys) = x @ CHR '','' # join_comma (y # ys)"

fun String_json :: "json \<Rightarrow> string" where
  "String_json JNull = ''null''"
| "String_json (JBool b) = (if b then ''true'' else ''false'')"
| "String_json (JNum i) = String_int i"
| "String_json (JDec m k) = String_dec m k"
| "String_json (JStr s) = s"
| "String_json (JArr xs) = join_comma (map (\<lambda>x. if x = JNull then [] else String_json x) xs)"
| "String_json (JObj kvs) = ''[object Object]''"

text \<open>
  \<^verbatim>\<open>JSON.parse\<close> as a recursive-descent parser over the JSON grammar: the four white-space
  characters, the three literals, numerals with an optional fraction and exponent,
  strings with the escapes of the grammar, arrays and objects. A text that is not JSON
  throws a \<^verbatim>\<open>SyntaxError\<close>. The parser for values carries a bound on the recursion; the
  bound that \<open>JSON_parse\<close> gives is never used up (lemma \<open>parse_value_fuel\<close> below).
\<close>

definition is_ws :: "char \<Rightarrow> bool" where
  "is_ws c \<longleftrightarrow> c = CHR '' '' \<or> c = CHR 0x09 \<or> c = CHR 0x0A \<or> c = CHR 0x0D"

definition skip_ws :: "string \<Rightarrow> string" where
  "skip_ws s = dropWhile is_ws s"

definition is_digit :: "char \<Rightarrow> bool" where
  "is_digit c \<longleftrightarrow> c \<in> set ''0123456789''"

definition digit_value :: "char \<Rightarrow> nat" where
  "digit_value c = (case map_of (zip ''0123456789'' [0 ..< 10]) c of None \<Rightarrow> 0 | Some d \<Rightarrow> d)"

fun parse_digits :: "string \<Rightarrow> nat \<Rightarrow> nat \<times> string" where
  "parse_digits [] acc = (acc, [])"
| "parse_digits (c # cs) acc =
     (if is_digit c then parse_digits cs (10 * acc + digit_value c) else (acc, c # cs))"

text \<open>
  The fraction continues the digits of the integer part and counts its own digits; the
  exponent is a signed integer. Both need a digit.
\<close>

definition parse_fraction :: "string \<Rightarrow> nat \<Rightarrow> (nat \<times> nat \<times> string) option" where
  "parse_fraction s ip =
     (case s of
        [] \<Rightarrow> Some (ip, 0, s)
      | c # cs \<Rightarrow>
          if c = CHR ''.'' then
            (case cs of
               [] \<Rightarrow> None
             | d # ds \<Rightarrow>
                 if is_digit d then
                   (let (m, r) = parse_digits cs ip in Some (m, length cs - length r, r))
                 else None)
          else Some (ip, 0, s))"

definition parse_exponent :: "string \<Rightarrow> (int \<times> string) option" where
  "parse_exponent s =
     (case s of
        [] \<Rightarrow> Some (0, s)
      | c # cs \<Rightarrow>
          if c = CHR ''e'' \<or> c = CHR ''E'' then
            (let (eneg, r) =
                   (case cs of
                      [] \<Rightarrow> (False, cs)
                    | x # xs \<Rightarrow>
                        if x = CHR ''-'' then (True, xs)
                        else if x = CHR ''+'' then (False, xs)
                        else (False, cs))
             in case r of
                  [] \<Rightarrow> None
                | d # ds \<Rightarrow>
                    if is_digit d then
                      (let (e, r') = parse_digits r 0
                       in Some (if eneg then - int e else int e, r'))
                    else None)
          else Some (0, s))"

text \<open>
  The value of the numeral with digits \<open>m\<close>, of which \<open>fd\<close> follow the point, and exponent
  \<open>ex\<close>: \<open>m * 10 ^ (ex - fd)\<close>, an integer when it is one.
\<close>

fun strip_zeros :: "nat \<Rightarrow> nat \<Rightarrow> nat \<times> nat" where
  "strip_zeros m 0 = (m, 0)"
| "strip_zeros m (Suc k) = (if m mod 10 = 0 then strip_zeros (m div 10) k else (m, Suc k))"

definition number_value :: "bool \<Rightarrow> nat \<Rightarrow> nat \<Rightarrow> int \<Rightarrow> json" where
  "number_value neg m fd ex =
     (let x = ex - int fd
      in if 0 \<le> x then JNum ((if neg then - int m else int m) * 10 ^ nat x)
         else
           (case strip_zeros m (nat (- x)) of
              (m', 0) \<Rightarrow> JNum (if neg then - int m' else int m')
            | (m', Suc k) \<Rightarrow> JDec (if neg then - int m' else int m') (Suc k)))"

definition parse_number :: "string \<Rightarrow> (json \<times> string) option" where
  "parse_number s =
     (let (neg, r) = (case s of [] \<Rightarrow> (False, s)
                      | c # cs \<Rightarrow> if c = CHR ''-'' then (True, cs) else (False, s))
      in case r of
           [] \<Rightarrow> None
         | d # ds \<Rightarrow>
             if \<not> is_digit d then None
             else
               (let (ip, r1) = (if d = CHR ''0'' then (0, ds) else parse_digits r 0)
                in case parse_fraction r1 ip of
                     None \<Rightarrow> None
                   | Some (m, fd, r2) \<Rightarrow>
                       (case parse_exponent r2 of
                          None \<Rightarrow> None
                        | Some (ex, r3) \<Rightarrow> Some (number_value neg m fd ex, r3))))"

definition unescape :: "char \<Rightarrow> char option" where
  "unescape e =
     map_of [(CHR 0x22, CHR 0x22), (CHR 0x5C, CHR 0x5C), (CHR ''/'', CHR ''/''),
             (CHR ''b'', CHR 0x08), (CHR ''f'', CHR 0x0C), (CHR ''n'', CHR 0x0A),
             (CHR ''r'', CHR 0x0D), (CHR ''t'', CHR 0x09)] e"

text \<open>
  The escape \<^verbatim>\<open>\u\<close> takes four hexadecimal digits, in either case, and gives a UTF-16
  code unit, stored as its bytes.
\<close>

definition hex_value :: "char \<Rightarrow> nat option" where
  "hex_value c =
     map_of (zip ''0123456789abcdef'' [0 ..< 16] @ zip ''ABCDEF'' [10 ..< 16]) c"

definition hex4 :: "string \<Rightarrow> nat option" where
  "hex4 xs =
     (case map hex_value xs of
        [Some a, Some b, Some c, Some d] \<Rightarrow> Some (((a * 16 + b) * 16 + c) * 16 + d)
      | _ \<Rightarrow> None)"

definition code_unit_bytes :: "nat \<Rightarrow> string" where
  "code_unit_bytes n =
     (if n < 128 then [char_of n]
      else if n < 2048 then [char_of (192 + n div 64), char_of (128 + n mod 64)]
      else [char_of (224 + n div 4096), char_of (128 + (n div 64) mod 64),
            char_of (128 + n mod 64)])"

fun parse_string :: "string \<Rightarrow> string \<Rightarrow> (string \<times> string) option" where
  "parse_string [] acc = None"
| "parse_string (c # cs) acc =
     (if c = CHR 0x22 then Some (rev acc, cs)
      else if c = CHR 0x5C then
        (case cs of
           [] \<Rightarrow> None
         | e # es \<Rightarrow>
             if e = CHR ''u'' then
               (case hex4 (take 4 es) of
                  None \<Rightarrow> None
                | Some n \<Rightarrow> parse_string (drop 4 es) (rev (code_unit_bytes n) @ acc))
             else
               (case unescape e of None \<Rightarrow> None | Some x \<Rightarrow> parse_string es (x # acc)))
      else if (of_char c :: nat) < 32 then None
      else parse_string cs (c # acc))"

fun parse_value :: "nat \<Rightarrow> string \<Rightarrow> (json \<times> string) option"
  and parse_elements :: "nat \<Rightarrow> string \<Rightarrow> json list \<Rightarrow> (json \<times> string) option"
  and parse_members :: "nat \<Rightarrow> string \<Rightarrow> (string \<times> json) list \<Rightarrow> (json \<times> string) option"
where
  "parse_value 0 s = None"
| "parse_value (Suc n) s =
     (case skip_ws s of
        [] \<Rightarrow> None
      | c # cs \<Rightarrow>
          if c = CHR ''{'' then
            (case skip_ws cs of
               [] \<Rightarrow> None
             | d # ds \<Rightarrow> if d = CHR ''}'' then Some (JObj [], ds) else parse_members n (d # ds) [])
          else if c = CHR ''['' then
            (case skip_ws cs of
               [] \<Rightarrow> None
             | d # ds \<Rightarrow> if d = CHR '']'' then Some (JArr [], ds) else parse_elements n (d # ds) [])
          else if c = CHR 0x22 then
            (case parse_string cs [] of None \<Rightarrow> None | Some (x, r) \<Rightarrow> Some (JStr x, r))
          else if c = CHR ''-'' \<or> is_digit c then parse_number (c # cs)
          else if take 4 (c # cs) = ''true'' then Some (JBool True, drop 4 (c # cs))
          else if take 5 (c # cs) = ''false'' then Some (JBool False, drop 5 (c # cs))
          else if take 4 (c # cs) = ''null'' then Some (JNull, drop 4 (c # cs))
          else None)"
| "parse_elements 0 s acc = None"
| "parse_elements (Suc n) s acc =
     (case parse_value n s of
        None \<Rightarrow> None
      | Some (v, r) \<Rightarrow>
          (case skip_ws r of
             [] \<Rightarrow> None
           | c # cs \<Rightarrow>
               if c = CHR '','' then parse_elements n cs (v # acc)
               else if c = CHR '']'' then Some (JArr (rev (v # acc)), cs)
               else None))"
| "parse_members 0 s acc = None"
| "parse_members (Suc n) s acc =
     (case skip_ws s of
        [] \<Rightarrow> None
      | c # cs \<Rightarrow>
          if c \<noteq> CHR 0x22 then None
          else
            (case parse_string cs [] of
               None \<Rightarrow> None
             | Some (k, r) \<Rightarrow>
                 (case skip_ws r of
                    [] \<Rightarrow> None
                  | d # ds \<Rightarrow>
                      if d \<noteq> CHR '':'' then None
                      else
                        (case parse_value n ds of
                           None \<Rightarrow> None
                         | Some (v, r2) \<Rightarrow>
                             (case skip_ws r2 of
                                [] \<Rightarrow> None
                              | e # es \<Rightarrow>
                                  if e = CHR '','' then parse_members n es ((k, v) # acc)
                                  else if e = CHR ''}'' then Some (JObj (rev ((k, v) # acc)), es)
                                  else None)))))"

definition JSON_parse :: "string \<Rightarrow> error + json" where
  "JSON_parse s =
     (case parse_value (2 * length s + 2) s of
        None \<Rightarrow> Inl (SyntaxError ''Unexpected token in JSON'')
      | Some (v, r) \<Rightarrow>
          if skip_ws r = [] then Inr v else Inl (SyntaxError ''Unexpected token in JSON''))"

text \<open>
  Modelled from the spec: the type \<^verbatim>\<open>MessageType\<close> of \<^verbatim>\<open>llm\<close> is missing from the sources;
  a role is one of system, user, assistant, tool.
\<close>

datatype MessageType = User | Assistant | System | Tool

text \<open>
  Modelled from the spec: the type \<^verbatim>\<open>OpenAIToolCall\<close> of \<^verbatim>\<open>agent/openai/types/chat\<close> is
  missing from the sources; a tool call request is an id, the target tool name and the
  serialized argument payload (JSON text). The worker reads them as \<^verbatim>\<open>toolCall.id\<close>,
  \<^verbatim>\<open>toolCall.function.name\<close> and \<^verbatim>\<open>toolCall.function.arguments\<close>, and tests whether
  \<^verbatim>\<open>toolCall.function\<close> is there.
\<close>

record OpenAIToolFunction =
  fn_name :: string
  fn_arguments :: string

record OpenAIToolCall =
  tc_id :: string
  tc_function :: "OpenAIToolFunction option"

text \<open>
  Modelled from the spec: the types \<^verbatim>\<open>ChatMessage\<close> and \<^verbatim>\<open>ChatResponse\<close> of \<^verbatim>\<open>llm\<close> are
  missing from the sources; a message is a role, a text content and optional tool-call
  metadata. The metadata the worker reads and writes are \<^verbatim>\<open>toolCalls\<close>, \<^verbatim>\<open>name\<close> and
  \<^verbatim>\<open>tool_call_id\<close>.
\<close>

record AdditionalKwargs =
  toolCalls :: "OpenAIToolCall list option"
  kw_name :: "string option"
  tool_call_id :: "string option"

record ChatMessage =
  content :: string
  role :: MessageType
  additionalKwargs :: "AdditionalKwargs option"

record ChatResponse =
  message :: ChatMessage

subsection \<open>Tools\<close>

text \<open>
  Modelled from the spec: the interface \<^verbatim>\<open>BaseTool\<close> of \<^verbatim>\<open>Tool\<close> is missing from the
  sources; a tool exposes a name, a description and a JSON parameter schema, and one
  invoke operation that takes the parsed argument object and returns a result or throws.
\<close>

record ToolMetadata =
  tm_name :: string
  tm_description :: string
  tm_parameters :: "json option"

record BaseTool =
  metadata :: ToolMetadata
  call :: "json \<Rightarrow> error + json"

text \<open>
  Modelled from the spec: the class \<^verbatim>\<open>ToolOutput\<close> of \<^verbatim>\<open>tools/types\<close> is missing from
  the sources. The spec's data model gives it a raw tool result, a success/error indicator
  and a human-readable summary.
\<close>

record ToolOutput =
  to_content :: string
  rawOutput :: json
  isError :: bool

text \<open>
  Modelled from the spec: \<^verbatim>\<open>ToolOutput.toString\<close> is missing from the sources;
  \<^verbatim>\<open>String(output)\<close>, the stringified output placed in the tool-role message, is the
  human-readable summary.
\<close>

definition String_ToolOutput :: "ToolOutput \<Rightarrow> string" where
  "String_ToolOutput out = to_content out"

text \<open>
  Modelled from the spec: \<^verbatim>\<open>getFunctionByName\<close> of \<^verbatim>\<open>agent/utils\<close> is missing from the
  sources. The spec's contract for tool dispatch (4.4): locate the tool by exact name
  match; a name that matches no tool does not fail the step, so the result is the tool
  or nothing.
\<close>

definition getFunctionByName :: "BaseTool list \<Rightarrow> string \<Rightarrow> BaseTool option" where
  "getFunctionByName tools name = find (\<lambda>tool. tm_name (metadata tool) = name) tools"

text \<open>\<^verbatim>\<open>String(e)\<close> on an error object: its name and its message.\<close>

fun error_text :: "error \<Rightarrow> string" where
  "error_text (Error m) = ''Error: '' @ m"
| "error_text (SyntaxError m) = ''SyntaxError: '' @ m"
| "error_text (TypeError m) = ''TypeError: '' @ m"

text \<open>
  Modelled from the spec: \<^verbatim>\<open>callToolWithErrorHandling\<close> of \<^verbatim>\<open>tools/utils\<close> is missing from
  the sources. The spec's contract for tool dispatch (4.4): if the tool is absent,
  produce a ToolOutput flagged as an error with a descriptive message instead of failing;
  if present, invoke it with the parsed argument object and wrap any invocation-time
  failure as an error-flagged ToolOutput rather than propagating. A result that is not a
  string is coerced to its string representation. The third argument is the error
  message to use, \<^verbatim>\<open>null\<close> for the default one.
\<close>

definition callToolWithErrorHandling ::
  "BaseTool option \<Rightarrow> json \<Rightarrow> string option \<Rightarrow> ToolOutput" where
  "callToolWithErrorHandling tool inputDict errorMessage =
     (case tool of
        None \<Rightarrow>
          \<lparr>to_content = (case errorMessage of None \<Rightarrow> ''Error: tool not found'' | Some m \<Rightarrow> m),
           rawOutput = JNull, isError = True\<rparr>
      | Some t \<Rightarrow>
          (case call t inputDict of
             Inr v \<Rightarrow> \<lparr>to_content = String_json v, rawOutput = v, isError = False\<rparr>
           | Inl e \<Rightarrow>
               \<lparr>to_content = (case errorMessage of None \<Rightarrow> ''Error: '' @ error_text e | Some m \<Rightarrow> m),
                rawOutput = JNull, isError = True\<rparr>))"

subsection \<open>callFunction\<close>

text \<open>
  The module-level \<^verbatim>\<open>callFunction(tools, toolCall, verbose)\<close>. Reading
  \<^verbatim>\<open>toolCall.function.name\<close> of a call without a function object throws a TypeError;
  \<^verbatim>\<open>JSON.parse\<close> throws on a malformed payload. Nothing here catches either. The console
  output under \<^verbatim>\<open>verbose\<close> changes no state and is left out.
\<close>

definition callFunction ::
  "BaseTool list \<Rightarrow> OpenAIToolCall \<Rightarrow> bool \<Rightarrow> error + (ChatMessage \<times> ToolOutput)" where
  "callFunction tools toolCall verbose_flag =
     (case tc_function toolCall of
        None \<Rightarrow> Inl (TypeError ''Cannot read properties of undefined'')
      | Some functionCall \<Rightarrow>
          let callId = tc_id toolCall;
              name = fn_name functionCall;
              argumentsStr = fn_arguments functionCall;
              tool = getFunctionByName tools name
          in (case JSON_parse argumentsStr of
                Inl e \<Rightarrow> Inl e
              | Inr argumentDict \<Rightarrow>
                  (let out = callToolWithErrorHandling tool argumentDict None
                   in Inr (\<lparr>content = String_ToolOutput out, role = Tool,
                             additionalKwargs =
                               Some \<lparr>toolCalls = None, kw_name = Some name,
                                     tool_call_id = Some callId\<rparr>\<rparr>,
                           out))))"

subsection \<open>The store: memory buffers and output arrays\<close>

type_synonym ref = nat

text \<open>
  \<open>buffers\<close> holds the message sequence of every \<^verbatim>\<open>ChatMemoryBuffer\<close> object,
  \<open>arrays\<close> the contents of every \<^verbatim>\<open>ToolOutput[]\<close> array object; references below
  \<open>nextRef\<close> are allocated.
\<close>

record store =
  buffers :: "ref \<Rightarrow> ChatMessage list"
  arrays :: "ref \<Rightarrow> ToolOutput list"
  nextRef :: ref

text \<open>
  The class \<^verbatim>\<open>ChatMemoryBuffer\<close> of \<^verbatim>\<open>memory/ChatMemoryBuffer\<close> is missing from the
  sources; its operations follow the spec's contract for the memory buffer (4.1), which
  enforces no size bound and mutates in place.
\<close>

text \<open>
  Modelled from the spec: \<^verbatim>\<open>ChatMemoryBuffer.get\<close> is missing from the sources;
  \<^verbatim>\<open>get()\<close> returns the full ordered message sequence.
\<close>

definition buffer_get :: "ref \<Rightarrow> store \<Rightarrow> ChatMessage list" where
  "buffer_get m s = buffers s m"

text \<open>
  Modelled from the spec: \<^verbatim>\<open>ChatMemoryBuffer.getAll\<close> is missing from the sources;
  \<^verbatim>\<open>getAll()\<close> is equivalent to \<^verbatim>\<open>get()\<close>.
\<close>

definition buffer_getAll :: "ref \<Rightarrow> store \<Rightarrow> ChatMessage list" where
  "buffer_getAll m s = buffer_get m s"

text \<open>
  Modelled from the spec: \<^verbatim>\<open>ChatMemoryBuffer.put\<close> is missing from the sources;
  \<^verbatim>\<open>put(message)\<close> appends one message.
\<close>

definition buffer_put :: "ref \<Rightarrow> ChatMessage \<Rightarrow> store \<Rightarrow> store" where
  "buffer_put m msg s = s\<lparr>buffers := (buffers s)(m := buffers s m @ [msg])\<rparr>"

text \<open>
  Modelled from the spec: \<^verbatim>\<open>ChatMemoryBuffer.set\<close> is missing from the sources; the
  sequence of a buffer is replaceable wholesale.
\<close>

definition buffer_set :: "ref \<Rightarrow> ChatMessage list \<Rightarrow> store \<Rightarrow> store" where
  "buffer_set m msgs s = s\<lparr>buffers := (buffers s)(m := msgs)\<rparr>"

text \<open>
  Modelled from the spec: \<^verbatim>\<open>ChatMemoryBuffer.reset\<close> is missing from the sources;
  \<^verbatim>\<open>reset()\<close> clears all messages.
\<close>

definition buffer_reset :: "ref \<Rightarrow> store \<Rightarrow> store" where
  "buffer_reset m s = s\<lparr>buffers := (buffers s)(m := [])\<rparr>"

text \<open>
  Modelled from the spec: the constructor of \<^verbatim>\<open>ChatMemoryBuffer\<close> is missing from the
  sources; \<^verbatim>\<open>new ChatMemoryBuffer()\<close> is a fresh buffer that owns an empty sequence.
\<close>

definition buffer_new :: "store \<Rightarrow> ref \<times> store" where
  "buffer_new s =
     (nextRef s, s\<lparr>buffers := (buffers s)(nextRef s := []), nextRef := Suc (nextRef s)\<rparr>)"

text \<open>The array literal \<^verbatim>\<open>[]\<close> of tool outputs and \<^verbatim>\<open>sources.push(x)\<close>.\<close>

definition array_new :: "store \<Rightarrow> ref \<times> store" where
  "array_new s =
     (nextRef s, s\<lparr>arrays := (arrays s)(nextRef s := []), nextRef := Suc (nextRef s)\<rparr>)"

definition array_push :: "ref \<Rightarrow> ToolOutput \<Rightarrow> store \<Rightarrow> store" where
  "array_push a x s = s\<lparr>arrays := (arrays s)(a := arrays s a @ [x])\<rparr>"

subsection \<open>Tasks and steps\<close>

text \<open>
  Modelled from the spec: the class \<^verbatim>\<open>Task\<close> of \<^verbatim>\<open>agent/types\<close> is missing from the
  sources; a task owns the persistent memory, the input text, a task identifier and the
  extra-state bag. The bag is the three entries that \<^verbatim>\<open>initializeStep\<close> stores in it: the
  array of tool outputs, the count of function calls and the scratch memory.
\<close>

record ExtraState =
  sources :: ref
  nFunctionCalls :: int
  newMemory :: ref

record Task =
  taskId :: string
  task_input :: string
  memory :: ref
  extraState :: ExtraState

text \<open>
  Modelled from the spec: the class \<^verbatim>\<open>TaskStep\<close> of \<^verbatim>\<open>agent/types\<close> is missing from the
  sources; a step is the task identifier, a step identifier and an optional input.
\<close>

record TaskStep =
  ts_taskId :: string
  stepId :: string
  step_input :: "string option"

text \<open>
  Modelled from the spec: \<^verbatim>\<open>TaskStep.getNextStep\<close> is missing from the sources; the
  successor step belongs to the same task and takes the identifier and the input given.
\<close>

definition getNextStep :: "TaskStep \<Rightarrow> string \<Rightarrow> string option \<Rightarrow> TaskStep" where
  "getNextStep step newId inp = \<lparr>ts_taskId = ts_taskId step, stepId = newId, step_input = inp\<rparr>"

text \<open>
  Modelled from the spec: the class \<^verbatim>\<open>AgentChatResponse\<close> of \<^verbatim>\<open>engines/chat\<close> is missing
  from the sources; the response payload of a step is the assistant's text and the
  array of tool outputs, which it shares with the task.
\<close>

record AgentChatResponse =
  response :: string
  acr_sources :: ref

text \<open>
  Modelled from the spec: the class \<^verbatim>\<open>TaskStepOutput\<close> of \<^verbatim>\<open>agent/types\<close> is missing from
  the sources; a step output is the response, the originating step, the next steps and
  the done flag, in the order of the constructor call in \<^verbatim>\<open>_runStep\<close>.
\<close>

record TaskStepOutput =
  tso_output :: AgentChatResponse
  taskStep :: TaskStep
  nextSteps :: "TaskStep list"
  isDone :: bool

subsection \<open>The worker\<close>

text \<open>
  Modelled from the spec: the enumeration \<^verbatim>\<open>ChatResponseMode\<close> of \<^verbatim>\<open>engines/chat\<close> is
  missing from the sources; the worker uses its members \<^verbatim>\<open>WAIT\<close> and \<^verbatim>\<open>STREAM\<close>.
\<close>

datatype ChatResponseMode = WAIT | STREAM

text \<open>A tool choice is a string or an object (\<^verbatim>\<open>string | { [key: string]: any }\<close>).\<close>

datatype ToolChoice = ChoiceString string | ChoiceObject json

text \<open>
  Modelled from the spec: the type \<^verbatim>\<open>OpenAiFunction\<close> of \<^verbatim>\<open>agent/openai/utils\<close> is missing
  from the sources; the schema of a tool is its name, description and JSON parameter
  schema.
\<close>

record OpenAiFunction =
  of_name :: string
  of_description :: string
  of_parameters :: "json option"

text \<open>
  Modelled from the spec: \<^verbatim>\<open>toOpenAiTool\<close> of \<^verbatim>\<open>agent/openai/utils\<close> is missing from the
  sources; it makes the schema from the name, the description and the parameters.
\<close>

definition toOpenAiTool :: "string \<Rightarrow> string \<Rightarrow> json option \<Rightarrow> OpenAiFunction" where
  "toOpenAiTool n d p = \<lparr>of_name = n, of_description = d, of_parameters = p\<rparr>"

text \<open>
  The keyword object handed to \<^verbatim>\<open>llm.chat\<close>: the keys \<^verbatim>\<open>tools\<close> and \<^verbatim>\<open>toolChoice\<close> are
  present only when they were assigned.
\<close>

record LlmChatKwargs =
  messages :: "ChatMessage list"
  kw_tools :: "OpenAiFunction list option"
  kw_toolChoice :: "ToolChoice option"

text \<open>
  The LLM is an external service: \<open>llm_chat\<close> gives the response to a request, or the
  error the call throws. \<open>getTools\<close> is the closure the constructor installs.
\<close>

record OpenAIAgentWorker =
  llm_chat :: "LlmChatKwargs \<Rightarrow> error + ChatResponse"
  verbose :: bool
  maxFunctionCalls :: int
  prefixMessages :: "ChatMessage list"
  getTools :: "string \<Rightarrow> BaseTool list"

definition DEFAULT_MAX_FUNCTION_CALLS :: int where
  "DEFAULT_MAX_FUNCTION_CALLS = 5"

record OpenAIAgentWorkerParams =
  p_tools :: "BaseTool list"
  p_llm :: "(LlmChatKwargs \<Rightarrow> error + ChatResponse) option"
  p_prefixMessages :: "ChatMessage list option"
  p_verbose :: "bool option"
  p_maxFunctionCalls :: "int option"
  p_toolRetriever :: "(string \<Rightarrow> BaseTool list) option"

text \<open>
  The constructor. Its first argument stands for the client that
  \<^verbatim>\<open>new OpenAI(...)\<close> builds for the model \<^verbatim>\<open>gpt-3.5-turbo-1106\<close> when no LLM is given;
  building it sends nothing. The callback manager has no part in the steps and is left out.
\<close>

definition OpenAIAgentWorker_constructor ::
  "(LlmChatKwargs \<Rightarrow> error + ChatResponse) \<Rightarrow> OpenAIAgentWorkerParams
     \<Rightarrow> error + OpenAIAgentWorker" where
  "OpenAIAgentWorker_constructor defaultLlm p =
     (let w = \<lparr>llm_chat = (case p_llm p of None \<Rightarrow> defaultLlm | Some l \<Rightarrow> l),
                verbose = (case p_verbose p of None \<Rightarrow> False | Some v \<Rightarrow> v),
                maxFunctionCalls =
                  (case p_maxFunctionCalls p of None \<Rightarrow> DEFAULT_MAX_FUNCTION_CALLS | Some m \<Rightarrow> m),
                prefixMessages = (case p_prefixMessages p of None \<Rightarrow> [] | Some ms \<Rightarrow> ms),
                getTools = (\<lambda>_. [])\<rparr>
      in if length (p_tools p) > 0 \<and> p_toolRetriever p \<noteq> None then
           Inl (Error ''Cannot specify both tools and tool_retriever'')
         else if length (p_tools p) > 0 then Inr (w\<lparr>getTools := (\<lambda>_. p_tools p)\<rparr>)
         else
           (case p_toolRetriever p of
              Some retrieve \<Rightarrow> Inr (w\<lparr>getTools := (\<lambda>message. retrieve message)\<rparr>)
            | None \<Rightarrow> Inr (w\<lparr>getTools := (\<lambda>_. [])\<rparr>)))"

definition getAllMessages :: "OpenAIAgentWorker \<Rightarrow> Task \<Rightarrow> store \<Rightarrow> ChatMessage list" where
  "getAllMessages w task s =
     prefixMessages w @ buffer_get (memory task) s
       @ buffer_get (newMemory (extraState task)) s"

text \<open>\<^verbatim>\<open>msg.additionalKwargs?.toolCalls\<close>: undefined when either is missing.\<close>

definition optional_toolCalls :: "ChatMessage \<Rightarrow> OpenAIToolCall list option" where
  "optional_toolCalls msg =
     (case additionalKwargs msg of None \<Rightarrow> None | Some kw \<Rightarrow> toolCalls kw)"

definition getLatestToolCalls :: "Task \<Rightarrow> store \<Rightarrow> OpenAIToolCall list option" where
  "getLatestToolCalls task s =
     (let chatHistory = buffer_getAll (newMemory (extraState task)) s
      in if length chatHistory = 0 then None
         else optional_toolCalls (chatHistory ! (length chatHistory - 1)))"

definition private_getLlmChatKwargs ::
  "OpenAIAgentWorker \<Rightarrow> Task \<Rightarrow> OpenAiFunction list \<Rightarrow> ToolChoice \<Rightarrow> store \<Rightarrow> LlmChatKwargs" where
  "private_getLlmChatKwargs w task openaiTools toolChoice s =
     (let llmChatKwargs =
            \<lparr>messages = getAllMessages w task s, kw_tools = None, kw_toolChoice = None\<rparr>
      in if length openaiTools > 0 then
           llmChatKwargs\<lparr>kw_tools := Some openaiTools, kw_toolChoice := Some toolChoice\<rparr>
         else llmChatKwargs)"

definition private_processMessage ::
  "Task \<Rightarrow> ChatResponse \<Rightarrow> store \<Rightarrow> AgentChatResponse \<times> store" where
  "private_processMessage task chatResponse s =
     (let aiMessage = message chatResponse
      in (\<lparr>response = content aiMessage, acr_sources = sources (extraState task)\<rparr>,
          buffer_put (newMemory (extraState task)) aiMessage s))"

definition private_getAgentResponse ::
  "OpenAIAgentWorker \<Rightarrow> Task \<Rightarrow> ChatResponseMode \<Rightarrow> LlmChatKwargs \<Rightarrow> store
     \<Rightarrow> (error + AgentChatResponse) \<times> store" where
  "private_getAgentResponse w task mode llmChatKwargs s =
     (if mode = WAIT then
        (case llm_chat w llmChatKwargs of
           Inl e \<Rightarrow> (Inl e, s)
         | Inr chatResponse \<Rightarrow>
             (let (r, s') = private_processMessage task chatResponse s in (Inr r, s')))
      else (Inl (Error ''Not implemented''), s))"

text \<open>The method \<^verbatim>\<open>callFunction(tools, toolCall, memory, sources)\<close> of the worker.\<close>

definition worker_callFunction ::
  "OpenAIAgentWorker \<Rightarrow> BaseTool list \<Rightarrow> OpenAIToolCall \<Rightarrow> ref \<Rightarrow> ref \<Rightarrow> store
     \<Rightarrow> (error + unit) \<times> store" where
  "worker_callFunction w tools toolCall mem srcs s =
     (case tc_function toolCall of
        None \<Rightarrow> (Inl (Error ''Invalid tool_call object''), s)
      | Some functionCall \<Rightarrow>
          (case callFunction tools toolCall (verbose w) of
             Inl e \<Rightarrow> (Inl e, s)
           | Inr functionMessage \<Rightarrow>
               (let msg = fst functionMessage;
                    toolOutput = snd functionMessage
                in (Inr (), buffer_put mem msg (array_push srcs toolOutput s)))))"

text \<open>
  \<^verbatim>\<open>initializeStep\<close>: a new output array and a new buffer; the second argument stands for
  the identifier that \<^verbatim>\<open>randomUUID()\<close> returns.
\<close>

definition initializeStep ::
  "Task \<Rightarrow> string \<Rightarrow> store \<Rightarrow> TaskStep \<times> Task \<times> store" where
  "initializeStep task uuid s =
     (let (srcs, s1) = array_new s;
          (newMem, s2) = buffer_new s1;
          taskState = \<lparr>sources = srcs, nFunctionCalls = 0, newMemory = newMem\<rparr>
      in (\<lparr>ts_taskId = taskId task, stepId = uuid, step_input = Some (task_input task)\<rparr>,
          task\<lparr>extraState := taskState\<rparr>, s2))"

definition private_shouldContinue ::
  "OpenAIAgentWorker \<Rightarrow> OpenAIToolCall list option \<Rightarrow> int \<Rightarrow> bool" where
  "private_shouldContinue w toolCalls_opt n =
     (if n > maxFunctionCalls w then False
      else
        (case toolCalls_opt of
           None \<Rightarrow> False
         | Some tcs \<Rightarrow> if length tcs = 0 then False else True))"

text \<open>
  Modelled from the spec: \<^verbatim>\<open>addUserStepToMemory\<close> of \<^verbatim>\<open>agent/utils\<close> is missing from the
  sources; a step that carries input appends it as a user message to the given memory.
\<close>

definition addUserStepToMemory :: "TaskStep \<Rightarrow> ref \<Rightarrow> bool \<Rightarrow> store \<Rightarrow> store" where
  "addUserStepToMemory step mem verbose_flag s =
     (case step_input step of
        None \<Rightarrow> s
      | Some i \<Rightarrow> buffer_put mem \<lparr>content = i, role = User, additionalKwargs = None\<rparr> s)"

text \<open>
  JavaScript truthiness of an optional string: \<^verbatim>\<open>undefined\<close> and the empty string are
  falsy.
\<close>

definition truthy :: "string option \<Rightarrow> bool" where
  "truthy x = (case x of None \<Rightarrow> False | Some v \<Rightarrow> v \<noteq> [])"

text \<open>
  The first part of \<^verbatim>\<open>_runStep\<close> (up to the call of \<^verbatim>\<open>_getLlmChatKwargs\<close>): the store after
  the user message was added, and the request the step sends to the LLM.
\<close>

definition runStep_memory :: "OpenAIAgentWorker \<Rightarrow> TaskStep \<Rightarrow> Task \<Rightarrow> store \<Rightarrow> store" where
  "runStep_memory w step task s =
     (if truthy (step_input step) then
        addUserStepToMemory step (newMemory (extraState task)) (verbose w) s
      else s)"

definition runStep_request ::
  "OpenAIAgentWorker \<Rightarrow> TaskStep \<Rightarrow> Task \<Rightarrow> ToolChoice \<Rightarrow> store \<Rightarrow> LlmChatKwargs" where
  "runStep_request w step task toolChoice s =
     (let tools = getTools w (task_input task);
          s1 = runStep_memory w step task s;
          openaiTools =
            (if truthy (step_input step) then
               map (\<lambda>tool. toOpenAiTool (tm_name (metadata tool)) (tm_description (metadata tool))
                                (tm_parameters (metadata tool))) tools
             else [])
      in private_getLlmChatKwargs w task openaiTools toolChoice s1)"

text \<open>
  The loop \<^verbatim>\<open>for (const toolCall of latestToolCalls)\<close> of \<^verbatim>\<open>_runStep\<close>: each call is
  dispatched and then counted; a throw leaves the loop with what was done so far.
\<close>

fun runStep_dispatch ::
  "OpenAIAgentWorker \<Rightarrow> BaseTool list \<Rightarrow> OpenAIToolCall list \<Rightarrow> Task \<Rightarrow> store
     \<Rightarrow> error option \<times> Task \<times> store" where
  "runStep_dispatch w tools [] task s = (None, task, s)"
| "runStep_dispatch w tools (toolCall # rest) task s =
     (case worker_callFunction w tools toolCall (newMemory (extraState task))
             (sources (extraState task)) s of
        (Inl e, s') \<Rightarrow> (Some e, task, s')
      | (Inr _, s') \<Rightarrow>
          runStep_dispatch w tools rest
            (task\<lparr>extraState := (extraState task)\<lparr>nFunctionCalls :=
                     nFunctionCalls (extraState task) + 1\<rparr>\<rparr>) s')"

text \<open>
  \<^verbatim>\<open>_runStep\<close>. The result is the step output or the error thrown, with the task and the
  store as the step left them. \<open>uuid\<close> stands for the identifier that \<^verbatim>\<open>randomUUID()\<close>
  returns for the successor step.
\<close>

definition private_runStep ::
  "OpenAIAgentWorker \<Rightarrow> TaskStep \<Rightarrow> Task \<Rightarrow> ChatResponseMode \<Rightarrow> ToolChoice \<Rightarrow> string \<Rightarrow> store
     \<Rightarrow> (error + TaskStepOutput) \<times> Task \<times> store" where
  "private_runStep w step task mode toolChoice uuid s =
     (let tools = getTools w (task_input task);
          s1 = runStep_memory w step task s;
          llmChatKwargs = runStep_request w step task toolChoice s
      in case private_getAgentResponse w task mode llmChatKwargs s1 of
           (Inl e, s2) \<Rightarrow> (Inl e, task, s2)
         | (Inr agentChatResponse, s2) \<Rightarrow>
             (let latestToolCalls =
                    (case getLatestToolCalls task s2 of None \<Rightarrow> [] | Some tcs \<Rightarrow> tcs)
              in if \<not> private_shouldContinue w (Some latestToolCalls)
                        (nFunctionCalls (extraState task)) then
                   (Inr \<lparr>tso_output = agentChatResponse, taskStep = step, nextSteps = [],
                         isDone = True\<rparr>, task, s2)
                 else
                   (case runStep_dispatch w tools latestToolCalls task s2 of
                      (Some e, task', s3) \<Rightarrow> (Inl e, task', s3)
                    | (None, task', s3) \<Rightarrow>
                        (Inr \<lparr>tso_output = agentChatResponse, taskStep = step,
                              nextSteps = [getNextStep step uuid None], isDone = False\<rparr>,
                         task', s3))))"

text \<open>
  \<^verbatim>\<open>runStep\<close> and \<^verbatim>\<open>streamStep\<close>: \<^verbatim>\<open>kwargs?.toolChoice || 'auto'\<close> takes the caller's
  choice unless it is missing or the empty string.
\<close>

record StepKwargs =
  sk_toolChoice :: "ToolChoice option"

definition toolChoice_or_auto :: "StepKwargs option \<Rightarrow> ToolChoice" where
  "toolChoice_or_auto kwargs =
     (case kwargs of
        None \<Rightarrow> ChoiceString ''auto''
      | Some k \<Rightarrow>
          (case sk_toolChoice k of
             None \<Rightarrow> ChoiceString ''auto''
           | Some (ChoiceString c) \<Rightarrow> if c = [] then ChoiceString ''auto'' else ChoiceString c
           | Some (ChoiceObject j) \<Rightarrow> ChoiceObject j))"

definition runStep ::
  "OpenAIAgentWorker \<Rightarrow> TaskStep \<Rightarrow> Task \<Rightarrow> StepKwargs option \<Rightarrow> string \<Rightarrow> store
     \<Rightarrow> (error + TaskStepOutput) \<times> Task \<times> store" where
  "runStep w step task kwargs uuid s =
     private_runStep w step task WAIT (toolChoice_or_auto kwargs) uuid s"

definition streamStep ::
  "OpenAIAgentWorker \<Rightarrow> TaskStep \<Rightarrow> Task \<Rightarrow> StepKwargs option \<Rightarrow> string \<Rightarrow> store
     \<Rightarrow> (error + TaskStepOutput) \<times> Task \<times> store" where
  "streamStep w step task kwargs uuid s =
     private_runStep w step task STREAM (toolChoice_or_auto kwargs) uuid s"

subsection \<open>finalizeTask\<close>

text \<open>
  \<^verbatim>\<open>task.memory.set(task.memory.get().concat(task.extraState.newMemory.get()));
  task.extraState.newMemory.reset();\<close>
\<close>

definition finalizeTask :: "Task \<Rightarrow> store \<Rightarrow> store" where
  "finalizeTask task s =
     (let s1 = buffer_set (memory task)
                 (buffer_get (memory task) s @ buffer_get (newMemory (extraState task)) s) s
      in buffer_reset (newMemory (extraState task)) s1)"

subsection \<open>A concrete agent\<close>

text \<open>
  The example that accompanies the worker: one function tool \<^verbatim>\<open>sumNumbers\<close>, described
  as \<^verbatim>\<open>Sum two numbers\<close>, and the message \<^verbatim>\<open>sum 2 + 2?\<close>. The function returns
  \<^verbatim>\<open>a + b\<close>. \<open>sumNumbers\<close> is that function on integer fields \<^verbatim>\<open>a\<close> and \<^verbatim>\<open>b\<close>, where the sum
  is the integer sum (exactly so below \<open>2 ^ 53\<close>). On a missing field, a fraction or a
  value that is not a number JavaScript's \<^verbatim>\<open>+\<close> gives \<^verbatim>\<open>NaN\<close>, a rounded double or a
  concatenation, none of which the model represents: there \<open>sumNumbers\<close> throws instead,
  and nothing below applies it to such an argument. \<open>quoted s\<close> is \<open>s\<close> between double
  quotes.
\<close>

definition quoted :: "string \<Rightarrow> string" where
  "quoted s = CHR 0x22 # s @ [CHR 0x22]"

fun json_get :: "json \<Rightarrow> string \<Rightarrow> json option" where
  "json_get (JObj kvs) k = map_of (rev kvs) k"
| "json_get _ k = None"

definition sumNumbers :: "json \<Rightarrow> error + json" where
  "sumNumbers args =
     (case (json_get args ''a'', json_get args ''b'') of
        (Some (JNum a), Some (JNum b)) \<Rightarrow> Inr (JNum (a + b))
      | _ \<Rightarrow> Inl (TypeError ''sumNumbers: a and b must be numbers''))"

definition functionTool :: BaseTool where
  "functionTool =
     \<lparr>metadata = \<lparr>tm_name = ''sumNumbers'', tm_description = ''Sum two numbers'',
                   tm_parameters = None\<rparr>,
      call = sumNumbers\<rparr>"

text \<open>
  The payload that gives \<^verbatim>\<open>a\<close> and \<^verbatim>\<open>b\<close> the value 2, a payload that is not JSON (its key
  is not quoted and the brace is not closed), and tool calls with them.
\<close>

definition args_2_2 :: string where
  "args_2_2 = ''{'' @ quoted ''a'' @ '':2,'' @ quoted ''b'' @ '':2}''"

definition args_malformed :: string where
  "args_malformed = ''{a:2''"

definition tool_call :: "string \<Rightarrow> string \<Rightarrow> string \<Rightarrow> OpenAIToolCall" where
  "tool_call i n a = \<lparr>tc_id = i, tc_function = Some \<lparr>fn_name = n, fn_arguments = a\<rparr>\<rparr>"

definition assistant_message :: "string \<Rightarrow> OpenAIToolCall list option \<Rightarrow> ChatResponse" where
  "assistant_message c tcs =
     \<lparr>message = \<lparr>content = c, role = Assistant,
                  additionalKwargs =
                    Some \<lparr>toolCalls = tcs, kw_name = None, tool_call_id = None\<rparr>\<rparr>\<rparr>"

text \<open>
  A worker over an LLM that answers every request with the given response, with the given
  bound and tools.
\<close>

definition fixed_worker :: "ChatResponse \<Rightarrow> int \<Rightarrow> BaseTool list \<Rightarrow> OpenAIAgentWorker" where
  "fixed_worker resp bound tools =
     \<lparr>llm_chat = (\<lambda>_. Inr resp), verbose = False, maxFunctionCalls = bound,
      prefixMessages = [], getTools = (\<lambda>_. tools)\<rparr>"

text \<open>
  A task of a running conversation: the persistent memory is buffer 0 and holds one
  earlier exchange. \<^verbatim>\<open>initializeStep\<close> gives it the output array 1 and the scratch
  memory 2.
\<close>

definition earlier_messages :: "ChatMessage list" where
  "earlier_messages =
     [\<lparr>content = ''hello'', role = User, additionalKwargs = None\<rparr>,
      \<lparr>content = ''Hi, how can I help?'', role = Assistant, additionalKwargs = None\<rparr>]"

definition store0 :: store where
  "store0 = \<lparr>buffers = (\<lambda>_. [])(0 := earlier_messages), arrays = (\<lambda>_. []), nextRef = 1\<rparr>"

text \<open>
  Before \<^verbatim>\<open>initializeStep\<close> the extra-state bag is empty; the entries given here are
  placeholders that \<^verbatim>\<open>initializeStep\<close> overwrites.
\<close>

definition task0 :: Task where
  "task0 =
     \<lparr>taskId = ''task-1'', task_input = ''sum 2 + 2?'', memory = 0,
      extraState = \<lparr>sources = 0, nFunctionCalls = 0, newMemory = 0\<rparr>\<rparr>"

definition step1 :: TaskStep where
  "step1 = fst (initializeStep task0 ''step-1'' store0)"

definition task1 :: Task where
  "task1 = fst (snd (initializeStep task0 ''step-1'' store0))"

definition store1 :: store where
  "store1 = snd (snd (initializeStep task0 ''step-1'' store0))"

text \<open>
  The responses of the LLM used below: one call of \<^verbatim>\<open>sumNumbers\<close>; two calls in one
  batch; a call of a tool that does not exist; a call with a malformed payload; a call
  of a tool that does not exist with a malformed payload; a plain answer without tool
  calls.
\<close>

definition response_sum :: ChatResponse where
  "response_sum = assistant_message [] (Some [tool_call ''call-1'' ''sumNumbers'' args_2_2])"

definition response_two :: ChatResponse where
  "response_two =
     assistant_message []
       (Some [tool_call ''call-1'' ''sumNumbers'' args_2_2,
              tool_call ''call-2'' ''sumNumbers'' args_2_2])"

definition response_unknown :: ChatResponse where
  "response_unknown = assistant_message [] (Some [tool_call ''call-1'' ''multiply'' args_2_2])"

definition response_malformed :: ChatResponse where
  "response_malformed =
     assistant_message [] (Some [tool_call ''call-1'' ''sumNumbers'' args_malformed])"

definition response_unknown_malformed :: ChatResponse where
  "response_unknown_malformed =
     assistant_message [] (Some [tool_call ''call-1'' ''multiply'' args_malformed])"

definition response_chat :: ChatResponse where
  "response_chat = assistant_message ''2 + 2 = 4'' None"

definition worker_sum :: OpenAIAgentWorker where
  "worker_sum = fixed_worker response_sum DEFAULT_MAX_FUNCTION_CALLS [functionTool]"

definition worker_two :: OpenAIAgentWorker where
  "worker_two = fixed_worker response_two 1 [functionTool]"

definition worker_unknown :: OpenAIAgentWorker where
  "worker_unknown = fixed_worker response_unknown DEFAULT_MAX_FUNCTION_CALLS [functionTool]"

definition worker_malformed :: OpenAIAgentWorker where
  "worker_malformed = fixed_worker response_malformed DEFAULT_MAX_FUNCTION_CALLS [functionTool]"

definition worker_unknown_malformed :: OpenAIAgentWorker where
  "worker_unknown_malformed =
     fixed_worker response_unknown_malformed DEFAULT_MAX_FUNCTION_CALLS [functionTool]"

text \<open>
  A worker with bound 1 over an LLM that requests two calls of \<^verbatim>\<open>sumNumbers\<close> and, once
  the last message it sees is a tool result, a call of \<^verbatim>\<open>multiply\<close>.
\<close>

definition worker_then_unknown :: OpenAIAgentWorker where
  "worker_then_unknown =
     \<lparr>llm_chat =
        (\<lambda>kw. case rev (messages kw) of
                 [] \<Rightarrow> Inr response_two
               | m # _ \<Rightarrow> if role m = Tool then Inr response_unknown else Inr response_two),
      verbose = False, maxFunctionCalls = 1, prefixMessages = [],
      getTools = (\<lambda>_. [functionTool])\<rparr>"

definition worker_chat :: OpenAIAgentWorker where
  "worker_chat = fixed_worker response_chat DEFAULT_MAX_FUNCTION_CALLS []"

text \<open>
  The second step of the task, and the task and the store after the first step under
  \<open>worker_sum\<close>, under \<open>worker_two\<close> and under \<open>worker_then_unknown\<close>.
\<close>

definition step2 :: TaskStep where
  "step2 = getNextStep step1 ''step-2'' None"

definition task2 :: Task where
  "task2 = fst (snd (runStep worker_sum step1 task1 None ''step-2'' store1))"

definition store2 :: store where
  "store2 = snd (snd (runStep worker_sum step1 task1 None ''step-2'' store1))"

definition task_two :: Task where
  "task_two = fst (snd (runStep worker_two step1 task1 None ''step-2'' store1))"

definition store_two :: store where
  "store_two = snd (snd (runStep worker_two step1 task1 None ''step-2'' store1))"

definition task_then :: Task where
  "task_then = fst (snd (runStep worker_then_unknown step1 task1 None ''step-2'' store1))"

definition store_then :: store where
  "store_then = snd (snd (runStep worker_then_unknown step1 task1 None ''step-2'' store1))"

text \<open>Constructor parameters with both a tool list and a tool retriever.\<close>

definition params_both :: OpenAIAgentWorkerParams where
  "params_both =
     \<lparr>p_tools = [functionTool], p_llm = None, p_prefixMessages = None, p_verbose = None,
      p_maxFunctionCalls = None, p_toolRetriever = Some (\<lambda>_. [functionTool])\<rparr>"

section \<open>Properties\<close>

subsection \<open>The parser does not depend on its bound\<close>

text \<open>
  Every parser returns a strictly shorter rest, so from twice the length of the text on
  the bound on the recursion plays no part: \<open>JSON_parse\<close> never rejects a text for want
  of it.
\<close>

lemma skip_ws_length: "length (skip_ws s) \<le> length s"
  by (simp add: skip_ws_def length_dropWhile_le)

lemma skip_ws_Cons: "skip_ws s = c # cs \<Longrightarrow> length cs < length s"
  using skip_ws_length [of s] by simp

lemma parse_digits_length: "parse_digits s acc = (n, r) \<Longrightarrow> length r \<le> length s"
  by (induction s acc rule: parse_digits.induct) (auto split: if_splits)

lemma parse_digits_digit:
  "is_digit d \<Longrightarrow> parse_digits (d # ds) acc = (n, r) \<Longrightarrow> length r \<le> length ds"
  by (simp add: parse_digits_length)

lemma parse_fraction_length: "parse_fraction s ip = Some (m, fd, r) \<Longrightarrow> length r \<le> length s"
  by (auto simp: parse_fraction_def Let_def split: list.splits if_splits prod.splits
        dest: parse_digits_length)

lemma parse_exponent_length: "parse_exponent s = Some (e, r) \<Longrightarrow> length r \<le> length s"
  by (auto simp: parse_exponent_def Let_def split: list.splits if_splits prod.splits
        dest!: parse_digits_length)

lemma parse_number_length: "parse_number s = Some (v, r) \<Longrightarrow> length r < length s"
  by (auto simp: parse_number_def Let_def split: list.splits if_splits prod.splits option.splits
        dest!: parse_digits_length parse_fraction_length parse_exponent_length)



lemma parse_string_length: "parse_string s acc = Some (k, r) \<Longrightarrow> length r < length s"
proof (induction "length s" arbitrary: s acc rule: less_induct)
  case less
  show ?case
  proof (cases s)
    case Nil
    with less.prems show ?thesis by simp
  next
    case (Cons c cs)
    note s = Cons
    show ?thesis
    proof (cases "c = CHR 0x22")
      case True
      with less.prems s show ?thesis by simp
    next
      case quote: False
      show ?thesis
      proof (cases "c = CHR 0x5C")
        case False
        with quote less.prems s have "parse_string cs (c # acc) = Some (k, r)"
          by (simp split: if_splits)
        from less.hyps [OF _ this] s show ?thesis by simp
      next
        case True
        with quote less.prems s obtain e es where cs: "cs = e # es"
          by (cases cs) auto
        show ?thesis
        proof (cases "e = CHR ''u''")
          case True
          with quote \<open>c = CHR 0x5C\<close> less.prems s cs obtain n where
            "parse_string (drop 4 es) (rev (code_unit_bytes n) @ acc) = Some (k, r)"
            by (auto split: option.splits)
          from less.hyps [OF _ this] s cs have "length r < length (drop 4 es)" by simp
          with s cs show ?thesis by simp
        next
          case False
          with quote \<open>c = CHR 0x5C\<close> less.prems s cs obtain x where
            "parse_string es (x # acc) = Some (k, r)"
            by (auto split: option.splits)
          from less.hyps [OF _ this] s cs show ?thesis by simp
        qed
      qed
    qed
  qed
qed


lemma take_literal_length:
  "take n s = lit \<Longrightarrow> lit \<noteq> [] \<Longrightarrow> length (drop n s) < length s"
  by (cases n) auto

lemma parse_consumes:
  "(\<forall>s v r. parse_value n s = Some (v, r) \<longrightarrow> length r < length s)
   \<and> (\<forall>s acc v r. parse_elements n s acc = Some (v, r) \<longrightarrow> length r < length s)
   \<and> (\<forall>s acc v r. parse_members n s acc = Some (v, r) \<longrightarrow> length r < length s)"
proof (induction n)
  case 0
  show ?case by simp
next
  case (Suc n)
  then have V: "\<And>s v r. parse_value n s = Some (v, r) \<Longrightarrow> length r < length s"
    and E: "\<And>s acc v r. parse_elements n s acc = Some (v, r) \<Longrightarrow> length r < length s"
    and M: "\<And>s acc v r. parse_members n s acc = Some (v, r) \<Longrightarrow> length r < length s"
    by blast+
  have v: "length r < length s" if p: "parse_value (Suc n) s = Some (v, r)" for s v r
  proof (cases "skip_ws s")
    case Nil
    with p show ?thesis by simp
  next
    case (Cons c cs)
    note l1 = skip_ws_Cons [OF Cons]
    consider (obj) "c = CHR ''{''" | (arr) "c \<noteq> CHR ''{''" "c = CHR ''[''"
      | (str) "c \<noteq> CHR ''{''" "c \<noteq> CHR ''[''" "c = CHR 0x22"
      | (other) "c \<noteq> CHR ''{''" "c \<noteq> CHR ''[''" "c \<noteq> CHR 0x22"
      by blast
    then show ?thesis
    proof cases
      case obj
      show ?thesis
      proof (cases "skip_ws cs")
        case Nil
        with p Cons obj show ?thesis by simp
      next
        case (Cons d ds)
        note l2 = skip_ws_Cons [OF Cons]
        from p \<open>skip_ws s = c # cs\<close> obj Cons
        have "r = ds \<or> parse_members n (d # ds) [] = Some (v, r)"
          by (simp split: if_splits)
        with M [of "d # ds" "[]" v r] l1 l2 show ?thesis by auto
      qed
    next
      case arr
      show ?thesis
      proof (cases "skip_ws cs")
        case Nil
        with p Cons arr show ?thesis by simp
      next
        case (Cons d ds)
        note l2 = skip_ws_Cons [OF Cons]
        from p \<open>skip_ws s = c # cs\<close> arr Cons
        have "r = ds \<or> parse_elements n (d # ds) [] = Some (v, r)"
          by (simp split: if_splits)
        with E [of "d # ds" "[]" v r] l1 l2 show ?thesis by auto
      qed
    next
      case str
      with p Cons obtain x where "parse_string cs [] = Some (x, r)"
        by (auto split: option.splits)
      from parse_string_length [OF this] l1 show ?thesis by simp
    next
      case other
      with p Cons have "parse_number (c # cs) = Some (v, r)
          \<or> (take 4 (c # cs) = ''true'' \<and> r = drop 4 (c # cs))
          \<or> (take 5 (c # cs) = ''false'' \<and> r = drop 5 (c # cs))
          \<or> (take 4 (c # cs) = ''null'' \<and> r = drop 4 (c # cs))"
        by (simp split: if_splits)
      then have "length r < length (c # cs)"
        using parse_number_length [of "c # cs" v r]
          take_literal_length [of 4 "c # cs" "''true''"]
          take_literal_length [of 5 "c # cs" "''false''"]
          take_literal_length [of 4 "c # cs" "''null''"]
        by auto
      with l1 show ?thesis by simp
    qed
  qed
  have e: "length r < length s" if p: "parse_elements (Suc n) s acc = Some (v, r)" for s acc v r
  proof -
    from p obtain v1 r1 where pv: "parse_value n s = Some (v1, r1)"
      by (auto split: option.splits)
    note l1 = V [OF pv]
    from p pv obtain c cs where sk: "skip_ws r1 = c # cs"
      by (cases "skip_ws r1") auto
    note l2 = skip_ws_Cons [OF sk]
    from p pv sk have "parse_elements n cs (v1 # acc) = Some (v, r) \<or> r = cs"
      by (simp split: if_splits)
    with E [of cs "v1 # acc" v r] l1 l2 show ?thesis by auto
  qed
  have m: "length r < length s" if p: "parse_members (Suc n) s acc = Some (v, r)" for s acc v r
  proof -
    from p obtain c cs where sk: "skip_ws s = c # cs"
      by (cases "skip_ws s") auto
    note l1 = skip_ws_Cons [OF sk]
    from p sk obtain k r1 where ps: "parse_string cs [] = Some (k, r1)"
      by (auto split: if_splits option.splits)
    note l2 = parse_string_length [OF ps]
    from p sk ps obtain d ds where sk2: "skip_ws r1 = d # ds"
      by (cases "skip_ws r1") (auto split: if_splits)
    note l3 = skip_ws_Cons [OF sk2]
    from p sk ps sk2 obtain v1 r2 where pv: "parse_value n ds = Some (v1, r2)"
      by (auto split: if_splits option.splits)
    note l4 = V [OF pv]
    from p sk ps sk2 pv obtain x xs where sk3: "skip_ws r2 = x # xs"
      by (cases "skip_ws r2") (auto split: if_splits)
    note l5 = skip_ws_Cons [OF sk3]
    from p sk ps sk2 pv sk3 have "parse_members n xs ((k, v1) # acc) = Some (v, r) \<or> r = xs"
      by (simp split: if_splits)
    with M [of xs "(k, v1) # acc" v r] l1 l2 l3 l4 l5 show ?thesis by auto
  qed
  from v e m show ?case by blast
qed


lemma parse_fuel:
  "(\<forall>s m. 2 * length s + 1 \<le> n \<longrightarrow> 2 * length s + 1 \<le> m \<longrightarrow>
       parse_value n s = parse_value m s)
   \<and> (\<forall>s acc m. 2 * length s + 2 \<le> n \<longrightarrow> 2 * length s + 2 \<le> m \<longrightarrow>
         parse_elements n s acc = parse_elements m s acc)
   \<and> (\<forall>s acc m. 2 * length s + 2 \<le> n \<longrightarrow> 2 * length s + 2 \<le> m \<longrightarrow>
         parse_members n s acc = parse_members m s acc)"
proof (induction n)
  case 0
  show ?case by simp
next
  case (Suc n)
  then have V: "\<And>s m. 2 * length s + 1 \<le> n \<Longrightarrow> 2 * length s + 1 \<le> m \<Longrightarrow>
        parse_value n s = parse_value m s"
    and E: "\<And>s acc m. 2 * length s + 2 \<le> n \<Longrightarrow> 2 * length s + 2 \<le> m \<Longrightarrow>
        parse_elements n s acc = parse_elements m s acc"
    and M: "\<And>s acc m. 2 * length s + 2 \<le> n \<Longrightarrow> 2 * length s + 2 \<le> m \<Longrightarrow>
        parse_members n s acc = parse_members m s acc"
    by blast+
  have v: "parse_value (Suc n) s = parse_value m s"
    if b: "2 * length s + 1 \<le> Suc n" "2 * length s + 1 \<le> m" for s m
  proof -
    from b(2) obtain m' where m: "m = Suc m'" by (cases m) auto
    show ?thesis
    proof (cases "skip_ws s")
      case Nil
      with m show ?thesis by simp
    next
      case (Cons c cs)
      note l1 = skip_ws_Cons [OF Cons]
      show ?thesis
      proof (cases "skip_ws cs")
        case Nil
        with Cons m show ?thesis by simp
      next
        case inner: (Cons d ds)
        from skip_ws_length [of cs] inner l1 b m
        have bound: "2 * length (d # ds) + 2 \<le> n" "2 * length (d # ds) + 2 \<le> m'"
          by simp_all
        have "parse_elements n t [] = parse_elements m' t []"
          "parse_members n t [] = parse_members m' t []" if "length t = length (d # ds)" for t
          using bound that by (auto intro: E M)
        with Cons inner m show ?thesis by simp
      qed
    qed
  qed
  have e: "parse_elements (Suc n) s acc = parse_elements m s acc"
    if b: "2 * length s + 2 \<le> Suc n" "2 * length s + 2 \<le> m" for s acc m
  proof -
    from b(2) obtain m' where m: "m = Suc m'" by (cases m) auto
    from b m have pv: "parse_value n s = parse_value m' s"
      by (intro V) simp_all
    show ?thesis
    proof (cases "parse_value m' s")
      case None
      with pv m show ?thesis by simp
    next
      case (Some a)
      obtain v1 r1 where a: "a = (v1, r1)" by (cases a)
      from Some a parse_consumes [of m'] have l1: "length r1 < length s" by blast
      show ?thesis
      proof (cases "skip_ws r1")
        case Nil
        with pv Some a m show ?thesis by simp
      next
        case (Cons c cs)
        from skip_ws_Cons [OF Cons] l1 b m
        have "2 * length cs + 2 \<le> n" "2 * length cs + 2 \<le> m'"
          by simp_all
        then have "parse_elements n cs (v1 # acc) = parse_elements m' cs (v1 # acc)"
          by (rule E)
        with pv Some a Cons m show ?thesis by simp
      qed
    qed
  qed
  have mm: "parse_members (Suc n) s acc = parse_members m s acc"
    if b: "2 * length s + 2 \<le> Suc n" "2 * length s + 2 \<le> m" for s acc m
  proof -
    from b(2) obtain m' where m: "m = Suc m'" by (cases m) auto
    show ?thesis
    proof (cases "skip_ws s")
      case Nil
      with m show ?thesis by simp
    next
      case (Cons c cs)
      note l1 = skip_ws_Cons [OF Cons]
      show ?thesis
      proof (cases "parse_string cs []")
        case None
        with Cons m show ?thesis by simp
      next
        case (Some a)
        obtain k r1 where a: "a = (k, r1)" by (cases a)
        from parse_string_length [of cs "[]" k r1] Some a have l2: "length r1 < length cs"
          by simp
        show ?thesis
        proof (cases "skip_ws r1")
          case Nil
          with Cons Some a m show ?thesis by simp
        next
          case colon: (Cons d ds)
          note l3 = skip_ws_Cons [OF colon]
          from l1 l2 l3 b m have "2 * length ds + 1 \<le> n" "2 * length ds + 1 \<le> m'"
            by simp_all
          then have pv: "parse_value n ds = parse_value m' ds"
            by (rule V)
          show ?thesis
          proof (cases "parse_value m' ds")
            case None
            with pv Cons Some a colon m show ?thesis by simp
          next
            case val: (Some a2)
            obtain v1 r2 where a2: "a2 = (v1, r2)" by (cases a2)
            from val a2 parse_consumes [of m'] have l4: "length r2 < length ds" by blast
            show ?thesis
            proof (cases "skip_ws r2")
              case Nil
              with pv Cons Some a colon val a2 m show ?thesis by simp
            next
              case sep: (Cons x xs)
              from skip_ws_Cons [OF sep] l1 l2 l3 l4 b m
              have "2 * length xs + 2 \<le> n" "2 * length xs + 2 \<le> m'"
                by simp_all
              then have "parse_members n xs ((k, v1) # acc) = parse_members m' xs ((k, v1) # acc)"
                by (rule M)
              with pv Cons Some a colon val a2 sep m show ?thesis by simp
            qed
          qed
        qed
      qed
    qed
  qed
  from v e mm show ?case by blast
qed

lemma parse_value_fuel:
  assumes "2 * length s + 2 \<le> n"
  shows "parse_value n s = parse_value (2 * length s + 2) s"
proof -
  from parse_fuel [of n]
  have "2 * length s + 1 \<le> n \<Longrightarrow> 2 * length s + 1 \<le> m \<Longrightarrow>
      parse_value n s = parse_value m s" for m
    by blast
  then show ?thesis
    by (rule meta_mp [OF meta_mp]) (use assms in simp_all)
qed


subsection \<open>What a step leaves alone\<close>

lemma buffer_put_frame:
  "buffers (buffer_put m msg s) = (buffers s)(m := buffers s m @ [msg])"
  "arrays (buffer_put m msg s) = arrays s"
  "nextRef (buffer_put m msg s) = nextRef s"
  by (simp_all add: buffer_put_def)

lemma array_push_frame:
  "buffers (array_push a x s) = buffers s"
  "arrays (array_push a x s) = (arrays s)(a := arrays s a @ [x])"
  "nextRef (array_push a x s) = nextRef s"
  by (simp_all add: array_push_def)

lemma runStep_memory_frame:
  "m \<noteq> newMemory (extraState task) \<Longrightarrow> buffers (runStep_memory w step task s) m = buffers s m"
  "arrays (runStep_memory w step task s) = arrays s"
  "nextRef (runStep_memory w step task s) = nextRef s"
  by (simp_all add: runStep_memory_def addUserStepToMemory_def buffer_put_frame
        split: option.splits)

lemma getAgentResponse_frame:
  assumes "private_getAgentResponse w task mode kw s = (r, s')"
  shows "(\<forall>m. m \<noteq> newMemory (extraState task) \<longrightarrow> buffers s' m = buffers s m)
         \<and> arrays s' = arrays s \<and> nextRef s' = nextRef s"
  using assms
  by (auto simp: private_getAgentResponse_def private_processMessage_def buffer_put_frame Let_def
        split: if_splits sum.splits)

lemma worker_callFunction_frame:
  assumes "worker_callFunction w tools tc nm srcs s = (r, s')"
  shows "(\<forall>m. m \<noteq> nm \<longrightarrow> buffers s' m = buffers s m)
         \<and> (\<forall>a. a \<noteq> srcs \<longrightarrow> arrays s' a = arrays s a) \<and> nextRef s' = nextRef s"
  using assms
  by (auto simp: worker_callFunction_def buffer_put_frame array_push_frame Let_def
        split: option.splits sum.splits)

lemma runStep_dispatch_frame:
  assumes "runStep_dispatch w tools tcs task s = (r, task', s')"
  shows "(\<forall>m. m \<noteq> newMemory (extraState task) \<longrightarrow> buffers s' m = buffers s m)
         \<and> (\<forall>a. a \<noteq> sources (extraState task) \<longrightarrow> arrays s' a = arrays s a)
         \<and> nextRef s' = nextRef s
         \<and> (\<exists>k. task' = task\<lparr>extraState := (extraState task)\<lparr>nFunctionCalls := k\<rparr>\<rparr>)"
  using assms
proof (induction tcs arbitrary: task s)
  case Nil
  then show ?case by (auto intro: exI [of _ "nFunctionCalls (extraState task)"])
next
  case (Cons tc tcs)
  obtain r1 s1 where c: "worker_callFunction w tools tc (newMemory (extraState task))
             (sources (extraState task)) s = (r1, s1)"
    by (cases "worker_callFunction w tools tc (newMemory (extraState task))
             (sources (extraState task)) s") auto
  note f1 = worker_callFunction_frame [OF c]
  show ?case
  proof (cases r1)
    case (Inl e)
    with Cons.prems c f1 show ?thesis
      by (auto intro: exI [of _ "nFunctionCalls (extraState task)"])
  next
    case (Inr u)
    let ?t = "task\<lparr>extraState := (extraState task)\<lparr>nFunctionCalls :=
                     nFunctionCalls (extraState task) + 1\<rparr>\<rparr>"
    from Cons.prems c Inr have d: "runStep_dispatch w tools tcs ?t s1 = (r, task', s')"
      by simp
    from Cons.IH [OF d] f1 show ?thesis
      by auto
  qed
qed


lemma private_runStep_frame:
  assumes "private_runStep w step task mode tc uuid s = (r, task', s')"
  shows "(\<forall>m. m \<noteq> newMemory (extraState task) \<longrightarrow> buffers s' m = buffers s m)
         \<and> (\<forall>a. a \<noteq> sources (extraState task) \<longrightarrow> arrays s' a = arrays s a)
         \<and> nextRef s' = nextRef s
         \<and> (\<exists>k. task' = task\<lparr>extraState := (extraState task)\<lparr>nFunctionCalls := k\<rparr>\<rparr>)"
proof -
  let ?s1 = "runStep_memory w step task s"
  obtain r2 s2 where g: "private_getAgentResponse w task mode
      (runStep_request w step task tc s) ?s1 = (r2, s2)"
    by (cases "private_getAgentResponse w task mode (runStep_request w step task tc s) ?s1") auto
  note f2 = getAgentResponse_frame [OF g]
  note f1 = runStep_memory_frame [where task = task and w = w and step = step and s = s]
  have same: "task = task\<lparr>extraState := (extraState task)\<lparr>nFunctionCalls :=
      nFunctionCalls (extraState task)\<rparr>\<rparr>"
    by simp
  show ?thesis
  proof (cases r2)
    case (Inl e)
    with assms g have "task' = task" "s' = s2"
      by (simp_all add: private_runStep_def Let_def)
    with f1 f2 same show ?thesis by metis
  next
    case (Inr resp)
    let ?tcs = "case getLatestToolCalls task s2 of None \<Rightarrow> [] | Some tcs \<Rightarrow> tcs"
    show ?thesis
    proof (cases "private_shouldContinue w (Some ?tcs) (nFunctionCalls (extraState task))")
      case False
      with assms g Inr have "task' = task" "s' = s2"
        by (simp_all add: private_runStep_def Let_def)
      with f1 f2 same show ?thesis by metis
    next
      case True
      obtain e3 t3 s3 where d: "runStep_dispatch w (getTools w (task_input task)) ?tcs task s2
          = (e3, t3, s3)"
        by (cases "runStep_dispatch w (getTools w (task_input task)) ?tcs task s2") auto
      from assms g Inr True d have "task' = t3" "s' = s3"
        by (auto simp: private_runStep_def Let_def split: option.splits)
      with runStep_dispatch_frame [OF d] f1 f2 show ?thesis by auto
    qed
  qed
qed

subsection \<open>The step that stops\<close>

lemma getLatestToolCalls_after_put:
  "getLatestToolCalls task (buffer_put (newMemory (extraState task)) msg s) = optional_toolCalls msg"
  by (simp add: getLatestToolCalls_def buffer_getAll_def buffer_get_def buffer_put_frame Let_def)

lemma getAgentResponse_WAIT:
  assumes "llm_chat w kw = Inr resp"
  shows "private_getAgentResponse w task WAIT kw s =
           (Inr \<lparr>response = content (message resp), acr_sources = sources (extraState task)\<rparr>,
            buffer_put (newMemory (extraState task)) (message resp) s)"
  using assms by (simp add: private_getAgentResponse_def private_processMessage_def Let_def)

lemma private_runStep_stops:
  assumes "llm_chat w (runStep_request w step task tc s) = Inr resp"
    and "\<not> private_shouldContinue w
            (Some (case optional_toolCalls (message resp) of None \<Rightarrow> [] | Some tcs \<Rightarrow> tcs))
            (nFunctionCalls (extraState task))"
  shows "private_runStep w step task WAIT tc uuid s =
           (Inr \<lparr>tso_output = \<lparr>response = content (message resp),
                                acr_sources = sources (extraState task)\<rparr>,
                  taskStep = step, nextSteps = [], isDone = True\<rparr>,
            task,
            buffer_put (newMemory (extraState task)) (message resp) (runStep_memory w step task s))"
  using assms
  by (simp add: private_runStep_def getAgentResponse_WAIT getLatestToolCalls_after_put Let_def)

lemma private_runStep_continues:
  assumes "llm_chat w (runStep_request w step task tc s) = Inr resp"
    and "private_shouldContinue w
            (Some (case optional_toolCalls (message resp) of None \<Rightarrow> [] | Some tcs \<Rightarrow> tcs))
            (nFunctionCalls (extraState task))"
  shows "private_runStep w step task WAIT tc uuid s =
           (case runStep_dispatch w (getTools w (task_input task))
                   (case optional_toolCalls (message resp) of None \<Rightarrow> [] | Some tcs \<Rightarrow> tcs) task
                   (buffer_put (newMemory (extraState task)) (message resp)
                      (runStep_memory w step task s)) of
              (Some e, task', s3) \<Rightarrow> (Inl e, task', s3)
            | (None, task', s3) \<Rightarrow>
                (Inr \<lparr>tso_output = \<lparr>response = content (message resp),
                                     acr_sources = sources (extraState task)\<rparr>,
                       taskStep = step, nextSteps = [getNextStep step uuid None],
                       isDone = False\<rparr>,
                 task', s3))"
  using assms
  by (simp add: private_runStep_def getAgentResponse_WAIT getLatestToolCalls_after_put Let_def)

subsection \<open>A batch of tool calls\<close>

lemma callFunction_Inr:
  assumes "tc_function tc = Some fc" and "JSON_parse (fn_arguments fc) = Inr args"
  shows "callFunction tools tc v =
           Inr (\<lparr>content = String_ToolOutput
                    (callToolWithErrorHandling (getFunctionByName tools (fn_name fc)) args None),
                  role = Tool,
                  additionalKwargs = Some \<lparr>toolCalls = None, kw_name = Some (fn_name fc),
                                           tool_call_id = Some (tc_id tc)\<rparr>\<rparr>,
                callToolWithErrorHandling (getFunctionByName tools (fn_name fc)) args None)"
  using assms by (simp add: callFunction_def Let_def)

lemma worker_callFunction_ok:
  assumes "tc_function tc = Some fc" and "callFunction tools tc (verbose w) = Inr (m, out)"
  shows "worker_callFunction w tools tc nm srcs s = (Inr (), buffer_put nm m (array_push srcs out s))"
  using assms by (simp add: worker_callFunction_def Let_def)

lemma runStep_dispatch_all:
  assumes "\<forall>c\<in>set tcs. \<exists>fc m out. tc_function c = Some fc
             \<and> callFunction tools c (verbose w) = Inr (m, out)"
    and "runStep_dispatch w tools tcs task s = (r, task', s')"
  shows "r = None
         \<and> nFunctionCalls (extraState task') = nFunctionCalls (extraState task) + int (length tcs)
         \<and> buffers s' (newMemory (extraState task)) =
             buffers s (newMemory (extraState task))
               @ map (\<lambda>c. fst (projr (callFunction tools c (verbose w)))) tcs
         \<and> arrays s' (sources (extraState task)) =
             arrays s (sources (extraState task))
               @ map (\<lambda>c. snd (projr (callFunction tools c (verbose w)))) tcs"
  using assms
proof (induction tcs arbitrary: task s)
  case Nil
  then show ?case by simp
next
  case (Cons c cs)
  from Cons.prems(1) obtain fc m out where c: "tc_function c = Some fc"
      "callFunction tools c (verbose w) = Inr (m, out)"
    by auto
  let ?t = "task\<lparr>extraState := (extraState task)\<lparr>nFunctionCalls :=
                     nFunctionCalls (extraState task) + 1\<rparr>\<rparr>"
  let ?s = "buffer_put (newMemory (extraState task)) m
              (array_push (sources (extraState task)) out s)"
  from Cons.prems(2) worker_callFunction_ok [OF c]
  have d: "runStep_dispatch w tools cs ?t ?s = (r, task', s')"
    by simp
  from Cons.prems(1) have "\<forall>c\<in>set cs. \<exists>fc m out. tc_function c = Some fc
             \<and> callFunction tools c (verbose w) = Inr (m, out)"
    by simp
  from Cons.IH [OF this d] c show ?case
    by (simp add: buffer_put_frame array_push_frame)
qed


lemma getFunctionByName_unknown:
  assumes "\<forall>tool\<in>set tools. tm_name (metadata tool) \<noteq> name"
  shows "getFunctionByName tools name = None"
  using assms by (simp add: getFunctionByName_def find_None_iff)

lemma private_runStep_batch:
  assumes llm: "llm_chat w (runStep_request w step task tc s) = Inr resp"
    and calls: "optional_toolCalls (message resp) = Some tcs" "tcs \<noteq> []"
    and bound: "nFunctionCalls (extraState task) \<le> maxFunctionCalls w"
    and wellformed: "\<forall>c\<in>set tcs. \<exists>fc v. tc_function c = Some fc
                       \<and> JSON_parse (fn_arguments fc) = Inr v"
    and run: "private_runStep w step task WAIT tc uuid s = (r, task', s')"
  shows "r = Inr \<lparr>tso_output = \<lparr>response = content (message resp),
                                  acr_sources = sources (extraState task)\<rparr>,
                   taskStep = step, nextSteps = [getNextStep step uuid None], isDone = False\<rparr>
         \<and> nFunctionCalls (extraState task') = nFunctionCalls (extraState task) + int (length tcs)
         \<and> buffers s' (newMemory (extraState task)) =
             buffers (runStep_memory w step task s) (newMemory (extraState task))
               @ message resp
               # map (\<lambda>c. fst (projr (callFunction (getTools w (task_input task)) c (verbose w)))) tcs
         \<and> arrays s' (sources (extraState task)) =
             arrays s (sources (extraState task))
               @ map (\<lambda>c. snd (projr (callFunction (getTools w (task_input task)) c (verbose w)))) tcs"
proof -
  let ?tools = "getTools w (task_input task)"
  let ?s2 = "buffer_put (newMemory (extraState task)) (message resp) (runStep_memory w step task s)"
  from calls bound have go: "private_shouldContinue w
            (Some (case optional_toolCalls (message resp) of None \<Rightarrow> [] | Some tcs \<Rightarrow> tcs))
            (nFunctionCalls (extraState task))"
    by (simp add: private_shouldContinue_def)
  obtain e3 t3 s3 where d: "runStep_dispatch w ?tools tcs task ?s2 = (e3, t3, s3)"
    by (cases "runStep_dispatch w ?tools tcs task ?s2") auto
  from wellformed have ok: "\<forall>c\<in>set tcs. \<exists>fc m out. tc_function c = Some fc
             \<and> callFunction ?tools c (verbose w) = Inr (m, out)"
    by (metis callFunction_Inr)
  note all = runStep_dispatch_all [OF ok d]
  from private_runStep_continues [OF llm go, of uuid] run calls d all
  have "r = Inr \<lparr>tso_output = \<lparr>response = content (message resp),
                                  acr_sources = sources (extraState task)\<rparr>,
                   taskStep = step, nextSteps = [getNextStep step uuid None], isDone = False\<rparr>"
    "task' = t3" "s' = s3"
    by simp_all
  with all show ?thesis
    by (simp add: buffer_put_frame runStep_memory_frame)
qed

subsection \<open>A payload that does not parse\<close>

lemma callFunction_malformed:
  assumes "tc_function tc = Some fc" and "JSON_parse (fn_arguments fc) = Inl e"
  shows "callFunction tools tc v = Inl e"
    and "worker_callFunction w tools tc nm srcs s = (Inl e, s)"
  using assms by (simp_all add: callFunction_def worker_callFunction_def Let_def)

subsection \<open>The scratch memory of an initialised task\<close>

lemma initializeStep_scratch:
  assumes "memory task < nextRef s"
    and "initializeStep task uuid s = (step, task', s')"
  shows "memory task' = memory task \<and> memory task' \<noteq> newMemory (extraState task')
         \<and> memory task' < nextRef s'
         \<and> buffer_get (newMemory (extraState task')) s' = []
         \<and> arrays s' (sources (extraState task')) = []
         \<and> nFunctionCalls (extraState task') = 0
         \<and> step_input step = Some (task_input task)"
  using assms
  by (auto simp: initializeStep_def array_new_def buffer_new_def buffer_get_def Let_def)

text \<open>
  Were the scratch memory the very buffer of the persistent memory, \<^verbatim>\<open>finalizeTask\<close> would
  clear it; \<^verbatim>\<open>initializeStep\<close> rules this out.
\<close>

lemma finalizeTask_same_buffer:
  assumes "memory task = newMemory (extraState task)"
  shows "buffer_get (memory task) (finalizeTask task s) = []"
  using assms
  by (simp add: finalizeTask_def buffer_get_def buffer_set_def buffer_reset_def Let_def)

subsection \<open>Facts about the concrete agent\<close>

lemma args_2_2_parse:
  "JSON_parse args_2_2 = Inr (JObj [(''a'', JNum 2), (''b'', JNum 2)])"
  by code_simp

lemma fixed_worker_sel:
  "llm_chat (fixed_worker resp bound tools) kw = Inr resp"
  "maxFunctionCalls (fixed_worker resp bound tools) = bound"
  "getTools (fixed_worker resp bound tools) i = tools"
  "verbose (fixed_worker resp bound tools) = False"
  "prefixMessages (fixed_worker resp bound tools) = []"
  by (simp_all add: fixed_worker_def)

lemma fixed_worker_constructed:
  "OpenAIAgentWorker_constructor defaultLlm
     \<lparr>p_tools = tools, p_llm = Some (\<lambda>_. Inr resp), p_prefixMessages = None,
      p_verbose = None, p_maxFunctionCalls = Some bound, p_toolRetriever = None\<rparr>
   = Inr (fixed_worker resp bound tools)"
  by (cases tools) (simp_all add: OpenAIAgentWorker_constructor_def fixed_worker_def Let_def)

lemma run_collapse:
  "runStep w step task kwargs uuid s =
     (fst (runStep w step task kwargs uuid s), fst (snd (runStep w step task kwargs uuid s)),
      snd (snd (runStep w step task kwargs uuid s)))"
  by simp

section \<open>The claims\<close>

text \<open>
  C1 (as amended). The bound is checked once per step, before the batch is dispatched:
  a \<^verbatim>\<open>runStep\<close> that finds \<^verbatim>\<open>nFunctionCalls\<close> above the configured maximum, and whose LLM
  call returns, returns \<^verbatim>\<open>isDone = true\<close> with no successor steps whatever tool calls the
  response requests; it dispatches none of them and leaves the task, and so the counter,
  as it was.
\<close>

theorem runStep_stops_above_bound:
  assumes "maxFunctionCalls w < nFunctionCalls (extraState task)"
    and "llm_chat w (runStep_request w step task (toolChoice_or_auto kwargs) s) = Inr resp"
  shows "\<exists>out s'. runStep w step task kwargs uuid s = (Inr out, task, s')
           \<and> isDone out \<and> nextSteps out = [] \<and> arrays s' = arrays s"
proof -
  from assms(1) have "\<not> private_shouldContinue w
            (Some (case optional_toolCalls (message resp) of None \<Rightarrow> [] | Some tcs \<Rightarrow> tcs))
            (nFunctionCalls (extraState task))"
    by (simp add: private_shouldContinue_def)
  from private_runStep_stops [OF assms(2) this]
  show ?thesis
    by (simp add: runStep_def buffer_put_frame runStep_memory_frame)
qed

text \<open>
  The agent of the example with bound 1 and an LLM that requests two calls per response:
  after the first step the counter is 2; the second step stops although the response
  requests two more calls.
\<close>

theorem runStep_stops_above_bound_witness:
  "maxFunctionCalls worker_two < nFunctionCalls (extraState task_two)
   \<and> llm_chat worker_two (runStep_request worker_two step2 task_two (toolChoice_or_auto None)
         store_two) = Inr response_two
   \<and> optional_toolCalls (message response_two) =
       Some [tool_call ''call-1'' ''sumNumbers'' args_2_2,
             tool_call ''call-2'' ''sumNumbers'' args_2_2]
   \<and> (\<exists>out s'. runStep worker_two step2 task_two None ''step-3'' store_two = (Inr out, task_two, s')
         \<and> isDone out \<and> nextSteps out = [] \<and> arrays s' = arrays store_two)"
proof -
  have h1: "maxFunctionCalls worker_two < nFunctionCalls (extraState task_two)"
    by code_simp
  have h2: "llm_chat worker_two (runStep_request worker_two step2 task_two (toolChoice_or_auto None)
         store_two) = Inr response_two"
    by (simp add: worker_two_def fixed_worker_sel)
  have h3: "optional_toolCalls (message response_two) =
       Some [tool_call ''call-1'' ''sumNumbers'' args_2_2,
             tool_call ''call-2'' ''sumNumbers'' args_2_2]"
    by (simp add: response_two_def assistant_message_def optional_toolCalls_def)
  from runStep_stops_above_bound [OF h1 h2, of "''step-3''"] h1 h2 h3 show ?thesis
    by simp
qed

text \<open>
  The claim as stated fails there: the first step, started with the counter at 0,
  dispatches both calls of the batch and leaves the counter above the bound.
\<close>

theorem nFunctionCalls_exceeds_bound_counterexample:
  "\<not> nFunctionCalls (extraState (fst (snd (runStep worker_two step1 task1 None ''step-2'' store1))))
       \<le> maxFunctionCalls worker_two"
  by code_simp

text \<open>
  C2. For a task whose scratch memory is a buffer of its own (another object than the
  persistent memory, as \<^verbatim>\<open>initializeStep\<close> makes it), \<^verbatim>\<open>finalizeTask\<close> makes the
  persistent memory equal to the previous persistent memory followed by the scratch
  memory's messages in order, and leaves the scratch memory empty.
\<close>

theorem finalizeTask_appends_scratch:
  assumes "memory task \<noteq> newMemory (extraState task)"
  shows "buffer_get (memory task) (finalizeTask task s) =
           buffer_get (memory task) s @ buffer_get (newMemory (extraState task)) s
         \<and> buffer_get (newMemory (extraState task)) (finalizeTask task s) = []"
  using assms
  by (simp add: finalizeTask_def buffer_get_def buffer_set_def buffer_reset_def Let_def)

text \<open>
  The task of the example after its first step: the persistent memory holds the earlier
  exchange, the scratch memory the user message, the assistant message and the tool
  message.
\<close>

theorem finalizeTask_appends_scratch_witness:
  "memory task2 \<noteq> newMemory (extraState task2)
   \<and> buffer_get (memory task2) (finalizeTask task2 store2) =
       earlier_messages @ buffer_get (newMemory (extraState task2)) store2
   \<and> length (buffer_get (newMemory (extraState task2)) store2) = 3
   \<and> buffer_get (newMemory (extraState task2)) (finalizeTask task2 store2) = []"
proof -
  have d: "memory task2 \<noteq> newMemory (extraState task2)"
    by code_simp
  have m: "buffer_get (memory task2) store2 = earlier_messages"
    by code_simp
  have l: "length (buffer_get (newMemory (extraState task2)) store2) = 3"
    by code_simp
  from finalizeTask_appends_scratch [OF d, of store2] d m l show ?thesis
    by simp
qed

text \<open>
  C3 (as amended). A step whose LLM call returns, whose counter is within the bound and
  whose batch of tool calls has a function object and a payload that \<^verbatim>\<open>JSON.parse\<close>
  accepts in every call does not throw on a tool call that names no tool of the resolved
  tool set: \<^verbatim>\<open>runStep\<close> returns an output that is not done and has one successor step,
  the output array holds a ToolOutput with its error flag set for that call, and the
  scratch memory holds the tool-role message with that output's text and the call's
  identifier.
\<close>

theorem unknown_tool_is_recoverable:
  assumes llm: "llm_chat w (runStep_request w step task (toolChoice_or_auto kwargs) s) = Inr resp"
    and calls: "optional_toolCalls (message resp) = Some tcs"
    and bound: "nFunctionCalls (extraState task) \<le> maxFunctionCalls w"
    and wellformed: "\<forall>c\<in>set tcs. \<exists>fc v. tc_function c = Some fc
                       \<and> JSON_parse (fn_arguments fc) = Inr v"
    and tc: "tc \<in> set tcs" "tc_function tc = Some fc"
    and unknown: "\<forall>tool\<in>set (getTools w (task_input task)). tm_name (metadata tool) \<noteq> fn_name fc"
    and run: "runStep w step task kwargs uuid s = (r, task', s')"
  shows "\<exists>out. r = Inr out \<and> \<not> isDone out \<and> nextSteps out = [getNextStep step uuid None]
           \<and> (\<exists>t\<in>set (arrays s' (sources (extraState task))). isError t
                \<and> (\<exists>m\<in>set (buffer_get (newMemory (extraState task)) s').
                      role m = Tool \<and> content m = String_ToolOutput t
                      \<and> additionalKwargs m =
                          Some \<lparr>toolCalls = None, kw_name = Some (fn_name fc),
                                tool_call_id = Some (tc_id tc)\<rparr>))"
proof -
  let ?tools = "getTools w (task_input task)"
  from tc(1) have ne: "tcs \<noteq> []" by auto
  from run have run': "private_runStep w step task WAIT (toolChoice_or_auto kwargs) uuid s
      = (r, task', s')"
    by (simp add: runStep_def)
  note b = private_runStep_batch [OF llm calls ne bound wellformed run']
  from wellformed tc obtain v where v: "JSON_parse (fn_arguments fc) = Inr v"
    by fastforce
  let ?t = "callToolWithErrorHandling None v None"
  let ?m = "\<lparr>content = String_ToolOutput ?t, role = Tool,
             additionalKwargs = Some \<lparr>toolCalls = None, kw_name = Some (fn_name fc),
                                      tool_call_id = Some (tc_id tc)\<rparr>\<rparr>"
  have cf: "callFunction ?tools tc (verbose w) = Inr (?m, ?t)"
    using callFunction_Inr [OF tc(2) v, of ?tools "verbose w"]
      getFunctionByName_unknown [OF unknown]
    by simp
  from cf tc(1) have t_in: "?t \<in> set (arrays s' (sources (extraState task)))"
    using b by force
  from cf tc(1) have m_in: "?m \<in> set (buffer_get (newMemory (extraState task)) s')"
    using b by (force simp: buffer_get_def)
  have err: "isError ?t"
    by (simp add: callToolWithErrorHandling_def)
  from b have r: "r = Inr \<lparr>tso_output = \<lparr>response = content (message resp),
                                  acr_sources = sources (extraState task)\<rparr>,
                   taskStep = step, nextSteps = [getNextStep step uuid None], isDone = False\<rparr>"
    by simp
  have "\<exists>m\<in>set (buffer_get (newMemory (extraState task)) s').
          role m = Tool \<and> content m = String_ToolOutput ?t
          \<and> additionalKwargs m = Some \<lparr>toolCalls = None, kw_name = Some (fn_name fc),
                                         tool_call_id = Some (tc_id tc)\<rparr>"
    by (rule bexI [OF _ m_in]) simp
  with err t_in have "\<exists>t\<in>set (arrays s' (sources (extraState task))). isError t
      \<and> (\<exists>m\<in>set (buffer_get (newMemory (extraState task)) s').
            role m = Tool \<and> content m = String_ToolOutput t
            \<and> additionalKwargs m = Some \<lparr>toolCalls = None, kw_name = Some (fn_name fc),
                                           tool_call_id = Some (tc_id tc)\<rparr>)"
    by blast
  with r show ?thesis by simp
qed

text \<open>The LLM asks for \<^verbatim>\<open>multiply\<close>; the agent only has \<^verbatim>\<open>sumNumbers\<close>.\<close>

theorem unknown_tool_is_recoverable_witness:
  "llm_chat worker_unknown (runStep_request worker_unknown step1 task1 (toolChoice_or_auto None)
       store1) = Inr response_unknown
   \<and> optional_toolCalls (message response_unknown) = Some [tool_call ''call-1'' ''multiply'' args_2_2]
   \<and> nFunctionCalls (extraState task1) \<le> maxFunctionCalls worker_unknown
   \<and> JSON_parse args_2_2 = Inr (JObj [(''a'', JNum 2), (''b'', JNum 2)])
   \<and> map (\<lambda>tool. tm_name (metadata tool)) (getTools worker_unknown (task_input task1)) =
       [''sumNumbers'']
   \<and> (\<exists>out. fst (runStep worker_unknown step1 task1 None ''step-2'' store1) = Inr out
         \<and> \<not> isDone out \<and> nextSteps out = [getNextStep step1 ''step-2'' None]
         \<and> (\<exists>t\<in>set (arrays (snd (snd (runStep worker_unknown step1 task1 None ''step-2'' store1)))
                       (sources (extraState task1))).
               isError t
               \<and> (\<exists>m\<in>set (buffer_get (newMemory (extraState task1))
                              (snd (snd (runStep worker_unknown step1 task1 None ''step-2'' store1)))).
                     role m = Tool \<and> content m = String_ToolOutput t
                     \<and> additionalKwargs m =
                         Some \<lparr>toolCalls = None, kw_name = Some ''multiply'',
                               tool_call_id = Some ''call-1''\<rparr>)))"
proof -
  let ?tc = "tool_call ''call-1'' ''multiply'' args_2_2"
  let ?fc = "\<lparr>fn_name = ''multiply'', fn_arguments = args_2_2\<rparr>"
  have llm: "llm_chat worker_unknown (runStep_request worker_unknown step1 task1
       (toolChoice_or_auto None) store1) = Inr response_unknown"
    by (simp add: worker_unknown_def fixed_worker_sel)
  have calls: "optional_toolCalls (message response_unknown) = Some [?tc]"
    by (simp add: response_unknown_def assistant_message_def optional_toolCalls_def)
  have bound: "nFunctionCalls (extraState task1) \<le> maxFunctionCalls worker_unknown"
    by code_simp
  have fc: "tc_function ?tc = Some ?fc"
    by (simp add: tool_call_def)
  have wf: "\<forall>c\<in>set [?tc]. \<exists>fc v. tc_function c = Some fc \<and> JSON_parse (fn_arguments fc) = Inr v"
    by (simp add: tool_call_def args_2_2_parse)
  have names: "map (\<lambda>tool. tm_name (metadata tool)) (getTools worker_unknown (task_input task1)) =
       [''sumNumbers'']"
    by (simp add: worker_unknown_def fixed_worker_sel functionTool_def)
  have unknown: "\<forall>tool\<in>set (getTools worker_unknown (task_input task1)).
      tm_name (metadata tool) \<noteq> fn_name ?fc"
    by (simp add: worker_unknown_def fixed_worker_sel functionTool_def)
  from unknown_tool_is_recoverable [OF llm calls bound wf _ fc unknown run_collapse]
  have "\<exists>out. fst (runStep worker_unknown step1 task1 None ''step-2'' store1) = Inr out
         \<and> \<not> isDone out \<and> nextSteps out = [getNextStep step1 ''step-2'' None]
         \<and> (\<exists>t\<in>set (arrays (snd (snd (runStep worker_unknown step1 task1 None ''step-2'' store1)))
                       (sources (extraState task1))).
               isError t
               \<and> (\<exists>m\<in>set (buffer_get (newMemory (extraState task1))
                              (snd (snd (runStep worker_unknown step1 task1 None ''step-2'' store1)))).
                     role m = Tool \<and> content m = String_ToolOutput t
                     \<and> additionalKwargs m =
                         Some \<lparr>toolCalls = None, kw_name = Some ''multiply'',
                               tool_call_id = Some ''call-1''\<rparr>))"
    by (simp add: tool_call_def)
  with llm calls bound names args_2_2_parse show ?thesis
    by blast
qed

text \<open>
  The claim as stated, for every step that requests an unknown tool, fails twice. When
  the payload of the call of \<^verbatim>\<open>multiply\<close> is not JSON, \<^verbatim>\<open>runStep\<close> throws the
  \<^verbatim>\<open>SyntaxError\<close> and records nothing. When the counter is above the bound (2 against 1,
  after a first step with two calls), the call of \<^verbatim>\<open>multiply\<close> is not dispatched: the
  step is done, no ToolOutput with an error flag exists and the last message of the
  scratch memory is the assistant's.
\<close>

theorem unknown_tool_step_counterexample:
  "optional_toolCalls (message response_unknown_malformed) =
     Some [tool_call ''call-1'' ''multiply'' args_malformed]
   \<and> map (\<lambda>tool. tm_name (metadata tool)) (getTools worker_unknown_malformed (task_input task1))
       = [''sumNumbers'']
   \<and> fst (runStep worker_unknown_malformed step1 task1 None ''step-2'' store1) =
       Inl (SyntaxError ''Unexpected token in JSON'')
   \<and> arrays (snd (snd (runStep worker_unknown_malformed step1 task1 None ''step-2'' store1)))
         (sources (extraState task1)) = []
   \<and> map role (buffer_get (newMemory (extraState task1))
         (snd (snd (runStep worker_unknown_malformed step1 task1 None ''step-2'' store1)))) =
       [User, Assistant]
   \<and> maxFunctionCalls worker_then_unknown = 1
   \<and> nFunctionCalls (extraState task_then) = 2
   \<and> llm_chat worker_then_unknown
         (runStep_request worker_then_unknown step2 task_then (toolChoice_or_auto None) store_then)
       = Inr response_unknown
   \<and> optional_toolCalls (message response_unknown) =
       Some [tool_call ''call-1'' ''multiply'' args_2_2]
   \<and> fst (runStep worker_then_unknown step2 task_then None ''step-3'' store_then) =
       Inr \<lparr>tso_output = \<lparr>response = [], acr_sources = 1\<rparr>, taskStep = step2,
            nextSteps = [], isDone = True\<rparr>
   \<and> map isError (arrays (snd (snd (runStep worker_then_unknown step2 task_then None ''step-3''
         store_then))) (sources (extraState task_then))) = [False, False]
   \<and> map role (buffer_get (newMemory (extraState task_then))
         (snd (snd (runStep worker_then_unknown step2 task_then None ''step-3'' store_then)))) =
       [User, Assistant, Tool, Tool, Assistant]"
  by code_simp

text \<open>
  C4 (as amended). The request of a step carries the tool schemas (name, description,
  JSON parameter schema) and the tool choice exactly when the step carries input and the
  resolved tool set is non-empty; the first step of a task carries input, the successor
  steps that \<^verbatim>\<open>runStep\<close> returns do not. The tool choice defaults to \<^verbatim>\<open>auto\<close> and is the
  caller's choice when the caller gives one.
\<close>

theorem request_attaches_tools_on_input:
  "kw_tools (runStep_request w step task (toolChoice_or_auto kwargs) s) =
     (if truthy (step_input step) \<and> getTools w (task_input task) \<noteq> [] then
        Some (map (\<lambda>tool. \<lparr>of_name = tm_name (metadata tool),
                            of_description = tm_description (metadata tool),
                            of_parameters = tm_parameters (metadata tool)\<rparr>)
                (getTools w (task_input task)))
      else None)
   \<and> kw_toolChoice (runStep_request w step task (toolChoice_or_auto kwargs) s) =
       (if truthy (step_input step) \<and> getTools w (task_input task) \<noteq> [] then
          Some (toolChoice_or_auto kwargs)
        else None)
   \<and> toolChoice_or_auto None = ChoiceString ''auto''
   \<and> toolChoice_or_auto (Some \<lparr>sk_toolChoice = None\<rparr>) = ChoiceString ''auto''
   \<and> (c \<noteq> ChoiceString [] \<longrightarrow> toolChoice_or_auto (Some \<lparr>sk_toolChoice = Some c\<rparr>) = c)"
  by (cases c)
    (simp_all add: runStep_request_def private_getLlmChatKwargs_def toOpenAiTool_def
       toolChoice_or_auto_def Let_def)

text \<open>The first step of the example sends the schema of \<^verbatim>\<open>sumNumbers\<close>.\<close>

theorem request_attaches_tools_on_input_witness:
  "truthy (step_input step1)
   \<and> map (\<lambda>tool. tm_name (metadata tool)) (getTools worker_sum (task_input task1)) = [''sumNumbers'']
   \<and> kw_tools (runStep_request worker_sum step1 task1 (toolChoice_or_auto None) store1) =
       Some [\<lparr>of_name = ''sumNumbers'', of_description = ''Sum two numbers'', of_parameters = None\<rparr>]
   \<and> kw_toolChoice (runStep_request worker_sum step1 task1 (toolChoice_or_auto None) store1) =
       Some (ChoiceString ''auto'')
   \<and> toolChoice_or_auto (Some \<lparr>sk_toolChoice = Some (ChoiceString ''none'')\<rparr>) = ChoiceString ''none''"
proof -
  have i: "truthy (step_input step1)"
    by code_simp
  have n: "map (\<lambda>tool. tm_name (metadata tool)) (getTools worker_sum (task_input task1)) = [''sumNumbers'']"
    by (simp add: worker_sum_def fixed_worker_sel functionTool_def)
  have t: "getTools worker_sum (task_input task1) = [functionTool]"
    by (simp add: worker_sum_def fixed_worker_sel)
  have c: "ChoiceString ''none'' \<noteq> ChoiceString []"
    by simp
  from request_attaches_tools_on_input [of worker_sum step1 task1 None store1 "ChoiceString ''none''"]
    i n t c
  show ?thesis
    by (simp add: functionTool_def toolChoice_or_auto_def)
qed

text \<open>
  The claim as stated fails on the second step of the example: the step is the successor
  that the first \<^verbatim>\<open>runStep\<close> returned, the tool set is still \<^verbatim>\<open>sumNumbers\<close>, and the
  request has neither tools nor a tool choice.
\<close>

theorem successor_step_sends_no_tools_counterexample:
  "fst (runStep worker_sum step1 task1 None ''step-2'' store1) =
     Inr \<lparr>tso_output = \<lparr>response = [], acr_sources = 1\<rparr>, taskStep = step1,
          nextSteps = [step2], isDone = False\<rparr>
   \<and> map (\<lambda>tool. tm_name (metadata tool)) (getTools worker_sum (task_input task2)) = [''sumNumbers'']
   \<and> kw_tools (runStep_request worker_sum step2 task2 (toolChoice_or_auto None) store2) = None
   \<and> kw_toolChoice (runStep_request worker_sum step2 task2 (toolChoice_or_auto None) store2) = None"
  by code_simp

text \<open>
  C5. A tool call whose payload is not JSON makes \<^verbatim>\<open>runStep\<close> throw the
  \<^verbatim>\<open>SyntaxError\<close> of \<^verbatim>\<open>JSON.parse\<close>: the step returns no output, no ToolOutput is recorded
  and no tool-role message is appended; the scratch memory holds the user message and
  the assistant message only.
\<close>

theorem malformed_arguments_abort_step:
  "JSON_parse args_malformed = Inl (SyntaxError ''Unexpected token in JSON'')
   \<and> fst (runStep worker_malformed step1 task1 None ''step-2'' store1) =
       Inl (SyntaxError ''Unexpected token in JSON'')
   \<and> arrays (snd (snd (runStep worker_malformed step1 task1 None ''step-2'' store1)))
         (sources (extraState task1)) = []
   \<and> buffer_get (newMemory (extraState task1))
         (snd (snd (runStep worker_malformed step1 task1 None ''step-2'' store1))) =
       [\<lparr>content = ''sum 2 + 2?'', role = User, additionalKwargs = None\<rparr>,
        message response_malformed]"
  by code_simp

text \<open>
  C6. When the LLM response holds exactly one tool call, for a tool that returns 4 on
  the arguments \<^verbatim>\<open>{a: 2, b: 2}\<close>, and the counter is 0 (the configured maximum not being
  negative), the step appends to the scratch memory the assistant message and then the
  tool-role message whose content is exactly the string \<^verbatim>\<open>4\<close>, and the counter is 1
  afterwards.
\<close>

theorem sum_round_trip:
  assumes llm: "llm_chat w (runStep_request w step task (toolChoice_or_auto kwargs) s) = Inr resp"
    and calls: "optional_toolCalls (message resp) = Some [tc]"
    and fc: "tc_function tc = Some fc"
    and tool: "getFunctionByName (getTools w (task_input task)) (fn_name fc) = Some tool"
    and args: "JSON_parse (fn_arguments fc) = Inr (JObj [(''a'', JNum 2), (''b'', JNum 2)])"
    and four: "call tool (JObj [(''a'', JNum 2), (''b'', JNum 2)]) = Inr (JNum 4)"
    and zero: "nFunctionCalls (extraState task) = 0"
    and bound: "0 \<le> maxFunctionCalls w"
    and run: "runStep w step task kwargs uuid s = (r, task', s')"
  shows "buffer_get (newMemory (extraState task)) s' =
           buffer_get (newMemory (extraState task)) (runStep_memory w step task s)
             @ [message resp,
                \<lparr>content = ''4'', role = Tool,
                 additionalKwargs = Some \<lparr>toolCalls = None, kw_name = Some (fn_name fc),
                                          tool_call_id = Some (tc_id tc)\<rparr>\<rparr>]
         \<and> nFunctionCalls (extraState task') = 1"
proof -
  from run have run': "private_runStep w step task WAIT (toolChoice_or_auto kwargs) uuid s
      = (r, task', s')"
    by (simp add: runStep_def)
  from fc args have wf: "\<forall>c\<in>set [tc]. \<exists>fc v. tc_function c = Some fc
                       \<and> JSON_parse (fn_arguments fc) = Inr v"
    by simp
  from zero bound have le: "nFunctionCalls (extraState task) \<le> maxFunctionCalls w"
    by simp
  note b = private_runStep_batch [OF llm calls _ le wf run']
  have four_text: "String_int 4 = ''4''"
    by (simp add: String_int_def digits.simps)
  from b zero show ?thesis
    by (simp add: buffer_get_def callFunction_Inr [OF fc args] tool four
          callToolWithErrorHandling_def String_ToolOutput_def four_text)
qed

text \<open>The example: the LLM asks for \<^verbatim>\<open>sumNumbers\<close> on \<^verbatim>\<open>a = 2\<close> and \<^verbatim>\<open>b = 2\<close>.\<close>

theorem sum_round_trip_witness:
  "llm_chat worker_sum (runStep_request worker_sum step1 task1 (toolChoice_or_auto None) store1)
     = Inr response_sum
   \<and> optional_toolCalls (message response_sum) = Some [tool_call ''call-1'' ''sumNumbers'' args_2_2]
   \<and> getFunctionByName (getTools worker_sum (task_input task1)) ''sumNumbers'' = Some functionTool
   \<and> JSON_parse args_2_2 = Inr (JObj [(''a'', JNum 2), (''b'', JNum 2)])
   \<and> call functionTool (JObj [(''a'', JNum 2), (''b'', JNum 2)]) = Inr (JNum 4)
   \<and> nFunctionCalls (extraState task1) = 0
   \<and> 0 \<le> maxFunctionCalls worker_sum
   \<and> buffer_get (newMemory (extraState task1))
         (snd (snd (runStep worker_sum step1 task1 None ''step-2'' store1))) =
       [\<lparr>content = ''sum 2 + 2?'', role = User, additionalKwargs = None\<rparr>,
        message response_sum,
        \<lparr>content = ''4'', role = Tool,
         additionalKwargs = Some \<lparr>toolCalls = None, kw_name = Some ''sumNumbers'',
                                  tool_call_id = Some ''call-1''\<rparr>\<rparr>]
   \<and> nFunctionCalls (extraState (fst (snd (runStep worker_sum step1 task1 None ''step-2'' store1))))
       = 1"
proof -
  let ?tc = "tool_call ''call-1'' ''sumNumbers'' args_2_2"
  let ?fc = "\<lparr>fn_name = ''sumNumbers'', fn_arguments = args_2_2\<rparr>"
  have llm: "llm_chat worker_sum (runStep_request worker_sum step1 task1 (toolChoice_or_auto None)
      store1) = Inr response_sum"
    by (simp add: worker_sum_def fixed_worker_sel)
  have calls: "optional_toolCalls (message response_sum) = Some [?tc]"
    by (simp add: response_sum_def assistant_message_def optional_toolCalls_def)
  have fc: "tc_function ?tc = Some ?fc"
    by (simp add: tool_call_def)
  have tool: "getFunctionByName (getTools worker_sum (task_input task1)) (fn_name ?fc)
      = Some functionTool"
    by (simp add: worker_sum_def fixed_worker_sel getFunctionByName_def functionTool_def)
  have args: "JSON_parse (fn_arguments ?fc) = Inr (JObj [(''a'', JNum 2), (''b'', JNum 2)])"
    by (simp add: args_2_2_parse)
  have four: "call functionTool (JObj [(''a'', JNum 2), (''b'', JNum 2)]) = Inr (JNum 4)"
    by (simp add: functionTool_def sumNumbers_def)
  have zero: "nFunctionCalls (extraState task1) = 0"
    by code_simp
  have bound: "0 \<le> maxFunctionCalls worker_sum"
    by (simp add: worker_sum_def fixed_worker_sel DEFAULT_MAX_FUNCTION_CALLS_def)
  have before: "buffer_get (newMemory (extraState task1)) (runStep_memory worker_sum step1 task1 store1)
      = [\<lparr>content = ''sum 2 + 2?'', role = User, additionalKwargs = None\<rparr>]"
    by code_simp
  from sum_round_trip [OF llm calls fc tool args four zero bound run_collapse]
    llm calls tool args four zero bound before
  show ?thesis
    by (simp add: tool_call_def)
qed

text \<open>
  C7. If the resolved tool set is empty and the LLM response requests no tool call, one
  \<^verbatim>\<open>runStep\<close> returns an output with \<^verbatim>\<open>isDone = true\<close> and no next steps; nothing is
  dispatched: the task and the output arrays are unchanged, the scratch memory gains the
  assistant message only, and the request carried no tool schemas.
\<close>

theorem pure_chat_step_is_done:
  assumes "getTools w (task_input task) = []"
    and "llm_chat w (runStep_request w step task (toolChoice_or_auto kwargs) s) = Inr resp"
    and "optional_toolCalls (message resp) = None \<or> optional_toolCalls (message resp) = Some []"
  shows "\<exists>out s'. runStep w step task kwargs uuid s = (Inr out, task, s')
           \<and> isDone out \<and> nextSteps out = [] \<and> arrays s' = arrays s
           \<and> buffer_get (newMemory (extraState task)) s' =
               buffer_get (newMemory (extraState task)) (runStep_memory w step task s)
                 @ [message resp]
           \<and> kw_tools (runStep_request w step task (toolChoice_or_auto kwargs) s) = None"
proof -
  from assms(3) have "\<not> private_shouldContinue w
            (Some (case optional_toolCalls (message resp) of None \<Rightarrow> [] | Some tcs \<Rightarrow> tcs))
            (nFunctionCalls (extraState task))"
    by (auto simp: private_shouldContinue_def)
  from private_runStep_stops [OF assms(2) this] assms(1)
  show ?thesis
    by (simp add: runStep_def buffer_put_frame runStep_memory_frame buffer_get_def
          runStep_request_def private_getLlmChatKwargs_def Let_def)
qed

text \<open>An agent without tools whose LLM answers in plain text.\<close>

theorem pure_chat_step_is_done_witness:
  "getTools worker_chat (task_input task1) = []
   \<and> llm_chat worker_chat (runStep_request worker_chat step1 task1 (toolChoice_or_auto None) store1)
       = Inr response_chat
   \<and> optional_toolCalls (message response_chat) = None
   \<and> (\<exists>out s'. runStep worker_chat step1 task1 None ''step-2'' store1 = (Inr out, task1, s')
         \<and> isDone out \<and> nextSteps out = [] \<and> arrays s' = arrays store1
         \<and> buffer_get (newMemory (extraState task1)) s' =
             [\<lparr>content = ''sum 2 + 2?'', role = User, additionalKwargs = None\<rparr>,
              message response_chat]
         \<and> kw_tools (runStep_request worker_chat step1 task1 (toolChoice_or_auto None) store1)
             = None)"
proof -
  have tools: "getTools worker_chat (task_input task1) = []"
    by (simp add: worker_chat_def fixed_worker_sel)
  have llm: "llm_chat worker_chat (runStep_request worker_chat step1 task1 (toolChoice_or_auto None)
      store1) = Inr response_chat"
    by (simp add: worker_chat_def fixed_worker_sel)
  have none: "optional_toolCalls (message response_chat) = None"
    by (simp add: response_chat_def assistant_message_def optional_toolCalls_def)
  have before: "buffer_get (newMemory (extraState task1)) (runStep_memory worker_chat step1 task1 store1)
      = [\<lparr>content = ''sum 2 + 2?'', role = User, additionalKwargs = None\<rparr>]"
    by code_simp
  from pure_chat_step_is_done [OF tools llm disjI1 [OF none], of "''step-2''"] tools llm none before
  show ?thesis
    by simp
qed

text \<open>
  C8. Constructing a worker with both a non-empty tool list and a tool retriever fails
  with an error, whatever the other parameters are: no worker exists on which a step
  could run.
\<close>

theorem constructor_rejects_tools_and_retriever:
  assumes "p_tools p \<noteq> []" and "p_toolRetriever p = Some retriever"
  shows "OpenAIAgentWorker_constructor defaultLlm p =
           Inl (Error ''Cannot specify both tools and tool_retriever'')"
  using assms by (simp add: OpenAIAgentWorker_constructor_def Let_def)

theorem constructor_rejects_tools_and_retriever_witness:
  "p_tools params_both \<noteq> [] \<and> p_toolRetriever params_both = Some (\<lambda>_. [functionTool])
   \<and> OpenAIAgentWorker_constructor (\<lambda>_. Inr response_chat) params_both =
       Inl (Error ''Cannot specify both tools and tool_retriever'')"
  using constructor_rejects_tools_and_retriever
          [of params_both "\<lambda>_. [functionTool]" "\<lambda>_. Inr response_chat"]
  by (simp add: params_both_def)

text \<open>
  C9. Every output that \<^verbatim>\<open>runStep\<close> returns is done if and only if its list of next steps
  is empty; a non-empty list of next steps holds exactly one step, whose input is
  undefined.
\<close>

theorem runStep_done_iff_no_successor:
  assumes "runStep w step task kwargs uuid s = (Inr out, task', s')"
  shows "(isDone out \<longleftrightarrow> nextSteps out = [])
         \<and> (nextSteps out \<noteq> [] \<longrightarrow> (\<exists>next. nextSteps out = [next] \<and> step_input next = None))"
  using assms
  by (auto simp: runStep_def private_runStep_def Let_def getNextStep_def
        split: prod.splits sum.splits option.splits if_splits)

text \<open>
  Both shapes occur: the first step of the example continues with one successor without
  input, the step of the agent without tools is done with none.
\<close>

theorem runStep_done_iff_no_successor_witness:
  "fst (runStep worker_sum step1 task1 None ''step-2'' store1) =
     Inr \<lparr>tso_output = \<lparr>response = [], acr_sources = 1\<rparr>, taskStep = step1,
          nextSteps = [step2], isDone = False\<rparr>
   \<and> step_input step2 = None
   \<and> fst (runStep worker_chat step1 task1 None ''step-2'' store1) =
     Inr \<lparr>tso_output = \<lparr>response = ''2 + 2 = 4'', acr_sources = 1\<rparr>, taskStep = step1,
          nextSteps = [], isDone = True\<rparr>"
proof -
  let ?out = "\<lparr>tso_output = \<lparr>response = [], acr_sources = 1\<rparr>, taskStep = step1,
          nextSteps = [step2], isDone = False\<rparr>"
  have r: "fst (runStep worker_sum step1 task1 None ''step-2'' store1) = Inr ?out"
    by code_simp
  have c: "fst (runStep worker_chat step1 task1 None ''step-2'' store1) =
     Inr \<lparr>tso_output = \<lparr>response = ''2 + 2 = 4'', acr_sources = 1\<rparr>, taskStep = step1,
          nextSteps = [], isDone = True\<rparr>"
    by code_simp
  have e: "runStep worker_sum step1 task1 None ''step-2'' store1 =
      (Inr ?out, fst (snd (runStep worker_sum step1 task1 None ''step-2'' store1)),
       snd (snd (runStep worker_sum step1 task1 None ''step-2'' store1)))"
    using r run_collapse [of worker_sum step1 task1 None "''step-2''" store1] by simp
  from runStep_done_iff_no_successor [OF e] r c show ?thesis
    by simp
qed

text \<open>
  C10. \<^verbatim>\<open>runStep\<close> never modifies the persistent memory of a task whose scratch memory is
  a buffer of its own: whether the step returns or throws, the persistent memory holds
  the same messages afterwards, every buffer other than the scratch memory and every
  array other than the sources are unchanged, and the task differs at most in
  \<^verbatim>\<open>nFunctionCalls\<close>. \<^verbatim>\<open>streamStep\<close> and \<^verbatim>\<open>initializeStep\<close> leave the persistent memory
  unchanged too.
\<close>

theorem runStep_keeps_persistent_memory:
  assumes "memory task \<noteq> newMemory (extraState task)"
    and "memory task < nextRef s"
    and "runStep w step task kwargs uuid s = (r, task', s')"
  shows "buffer_get (memory task') s' = buffer_get (memory task) s
         \<and> (\<forall>m. m \<noteq> newMemory (extraState task) \<longrightarrow> buffers s' m = buffers s m)
         \<and> (\<forall>a. a \<noteq> sources (extraState task) \<longrightarrow> arrays s' a = arrays s a)
         \<and> task' = task\<lparr>extraState := (extraState task)\<lparr>nFunctionCalls :=
               nFunctionCalls (extraState task')\<rparr>\<rparr>
         \<and> buffer_get (memory (fst (snd (streamStep w step task kwargs uuid s))))
               (snd (snd (streamStep w step task kwargs uuid s))) = buffer_get (memory task) s
         \<and> buffer_get (memory (fst (snd (initializeStep task uuid s))))
               (snd (snd (initializeStep task uuid s))) = buffer_get (memory task) s"
proof -
  from assms(3) have "private_runStep w step task WAIT (toolChoice_or_auto kwargs) uuid s
      = (r, task', s')"
    by (simp add: runStep_def)
  from private_runStep_frame [OF this] assms(1)
  have run: "buffer_get (memory task') s' = buffer_get (memory task) s
         \<and> (\<forall>m. m \<noteq> newMemory (extraState task) \<longrightarrow> buffers s' m = buffers s m)
         \<and> (\<forall>a. a \<noteq> sources (extraState task) \<longrightarrow> arrays s' a = arrays s a)
         \<and> task' = task\<lparr>extraState := (extraState task)\<lparr>nFunctionCalls :=
               nFunctionCalls (extraState task')\<rparr>\<rparr>"
    by (auto simp: buffer_get_def)
  have "private_runStep w step task STREAM (toolChoice_or_auto kwargs) uuid s =
      (fst (streamStep w step task kwargs uuid s), fst (snd (streamStep w step task kwargs uuid s)),
       snd (snd (streamStep w step task kwargs uuid s)))"
    by (simp add: streamStep_def)
  from private_runStep_frame [OF this] assms(1)
  have stream: "buffer_get (memory (fst (snd (streamStep w step task kwargs uuid s))))
               (snd (snd (streamStep w step task kwargs uuid s))) = buffer_get (memory task) s"
    by (auto simp: buffer_get_def)
  from assms(2)
  have init: "buffer_get (memory (fst (snd (initializeStep task uuid s))))
               (snd (snd (initializeStep task uuid s))) = buffer_get (memory task) s"
    by (simp add: initializeStep_def array_new_def buffer_new_def buffer_get_def Let_def)
  from run stream init show ?thesis by blast
qed

text \<open>
  The first step of the example: the persistent memory still holds the earlier exchange,
  the task differs in the counter only, and the scratch memory has grown to three
  messages.
\<close>

theorem runStep_keeps_persistent_memory_witness:
  "memory task1 \<noteq> newMemory (extraState task1)
   \<and> memory task1 < nextRef store1
   \<and> buffer_get (memory task1) store1 = earlier_messages
   \<and> buffer_get (memory task2) store2 = earlier_messages
   \<and> task2 = task1\<lparr>extraState := (extraState task1)\<lparr>nFunctionCalls := 1\<rparr>\<rparr>
   \<and> length (buffer_get (newMemory (extraState task2)) store2) = 3"
proof -
  have d: "memory task1 \<noteq> newMemory (extraState task1)"
    by code_simp
  have a: "memory task1 < nextRef store1"
    by code_simp
  have m: "buffer_get (memory task1) store1 = earlier_messages"
    by code_simp
  have n: "nFunctionCalls (extraState task2) = 1"
    by code_simp
  have l: "length (buffer_get (newMemory (extraState task2)) store2) = 3"
    by code_simp
  have e: "runStep worker_sum step1 task1 None ''step-2'' store1 = (fst (runStep worker_sum step1 task1 None ''step-2'' store1), task2, store2)"
    by (simp add: task2_def store2_def)
  from runStep_keeps_persistent_memory [OF d a e] d a m n l show ?thesis
    by simp
qed

end
